theory Spec2Isabelle
  imports Complex_Main "HOL-Library.Log_Nat" "HOL-Library.Sublist"
begin

section \<open>Python values used by the monitor\<close>

text \<open>
  The script \<^verbatim>\<open>vram_helper/__main__.py\<close> works on Python integers (unbounded, modelled
  as \<open>int\<close>) and, in two places, on binary64 floats: the percentage of an alert,
  \<^verbatim>\<open>(int)((vram_usage / VRAM_TOTAL) * 100)\<close>, and the ceiling set by auto-detection,
  \<^verbatim>\<open>VRAM_TOTAL * .9\<close>. Floats are modelled with their rounding written out.
\<close>

datatype pyexn =
    ZeroDivisionError | OverflowError | ValueError | UnicodeDecodeError | AttributeError
  | FileNotFoundError

text \<open>
  A finite double is \<open>Finite m e\<close>, standing for \<open>m * 2 ^ e\<close>. The results of rounding are
  in canonical form: \<open>e\<close> is the exponent of the unit in the last place, at least \<open>-1074\<close>,
  \<open>\<bar>m\<bar> < 2 ^ 53\<close>, and zero is \<open>Finite 0 0\<close> (the sign of a zero is not observable through
  the operations the script uses).
\<close>

datatype dbl = Finite int int | PosInf | NegInf | NaN

text \<open>\<open>ilog2 n d\<close> is \<open>\<lfloor>log\<^sub>2 (n / d)\<rfloor>\<close> for positive \<open>n\<close> and \<open>d\<close>.\<close>

definition ilog2 :: "int \<Rightarrow> int \<Rightarrow> int" where
  "ilog2 n d =
     (let k = bitlen n - bitlen d
      in if (if 0 \<le> k then d * 2 ^ nat k \<le> n else d \<le> n * 2 ^ nat (- k)) then k else k - 1)"

text \<open>\<open>rne n d\<close> is \<open>n / d\<close> rounded to the nearest integer, ties to even (\<open>0 \<le> n\<close>, \<open>0 < d\<close>).\<close>

definition rne :: "int \<Rightarrow> int \<Rightarrow> int" where
  "rne n d =
     (let q = n div d; r = n mod d
      in if 2 * r < d \<or> (2 * r = d \<and> even q) then q else q + 1)"

text \<open>
  \<open>round_pos n d\<close> rounds the positive rational \<open>n / d\<close> to 53 significant bits (fewer in
  the subnormal range), with no upper bound on the exponent.
\<close>

definition round_pos :: "int \<Rightarrow> int \<Rightarrow> int \<times> int" where
  "round_pos n d =
     (let e = max (ilog2 n d - 52) (- 1074);
          m = (if 0 \<le> e then rne n (d * 2 ^ nat e) else rne (n * 2 ^ nat (- e)) d)
      in if m = 2 ^ 53 then (2 ^ 52, e + 1) else (m, e))"

text \<open>\<open>dbl_round n d\<close> is the double nearest to \<open>n / d\<close>, for \<open>0 < d\<close>; too large a value
  rounds to an infinity.\<close>

definition dbl_round :: "int \<Rightarrow> int \<Rightarrow> dbl" where
  "dbl_round n d =
     (if n = 0 then Finite 0 0
      else let (m, e) = round_pos \<bar>n\<bar> d
           in if 971 < e then (if 0 < n then PosInf else NegInf)
              else if m = 0 then Finite 0 0
              else Finite (sgn n * m) e)"

definition dbl_scaled :: "int \<Rightarrow> int \<Rightarrow> dbl" where
  "dbl_scaled m e = (if 0 \<le> e then dbl_round (m * 2 ^ nat e) 1 else dbl_round m (2 ^ nat (- e)))"

definition dbl_sign :: "dbl \<Rightarrow> int" where
  "dbl_sign x = (case x of Finite m e \<Rightarrow> sgn m | PosInf \<Rightarrow> 1 | NegInf \<Rightarrow> - 1 | NaN \<Rightarrow> 0)"

definition dbl_mul :: "dbl \<Rightarrow> dbl \<Rightarrow> dbl" where
  "dbl_mul x y =
     (case (x, y) of
        (Finite m1 e1, Finite m2 e2) \<Rightarrow> dbl_scaled (m1 * m2) (e1 + e2)
      | _ \<Rightarrow> (if x = NaN \<or> y = NaN \<or> dbl_sign x * dbl_sign y = 0 then NaN
              else if 0 < dbl_sign x * dbl_sign y then PosInf else NegInf))"

definition dbl_add :: "dbl \<Rightarrow> dbl \<Rightarrow> dbl" where
  "dbl_add x y =
     (case (x, y) of
        (Finite m1 e1, Finite m2 e2) \<Rightarrow>
          (let e = min e1 e2
           in dbl_scaled (m1 * 2 ^ nat (e1 - e) + m2 * 2 ^ nat (e2 - e)) e)
      | (Finite m1 e1, _) \<Rightarrow> y
      | (_, Finite m2 e2) \<Rightarrow> x
      | _ \<Rightarrow> (if x = y then x else NaN))"

definition dbl_less :: "dbl \<Rightarrow> dbl \<Rightarrow> bool" where
  "dbl_less x y =
     (case (x, y) of
        (Finite m1 e1, Finite m2 e2) \<Rightarrow>
          (let e = min e1 e2 in m1 * 2 ^ nat (e1 - e) < m2 * 2 ^ nat (e2 - e))
      | (NaN, _) \<Rightarrow> False
      | (_, NaN) \<Rightarrow> False
      | (_, NegInf) \<Rightarrow> False
      | (PosInf, _) \<Rightarrow> False
      | _ \<Rightarrow> True)"

definition dbl_le :: "dbl \<Rightarrow> dbl \<Rightarrow> bool" where
  "dbl_le x y =
     (case (x, y) of
        (Finite m1 e1, Finite m2 e2) \<Rightarrow>
          (let e = min e1 e2 in m1 * 2 ^ nat (e1 - e) \<le> m2 * 2 ^ nat (e2 - e))
      | (NaN, _) \<Rightarrow> False
      | (_, NaN) \<Rightarrow> False
      | (NegInf, _) \<Rightarrow> True
      | (_, PosInf) \<Rightarrow> True
      | _ \<Rightarrow> False)"

text \<open>\<^verbatim>\<open>a / b\<close> on two ints: correctly rounded; raises when \<open>b\<close> is zero or the quotient is
  too large for a float.\<close>

definition int_truediv :: "int \<Rightarrow> int \<Rightarrow> pyexn + dbl" where
  "int_truediv a b =
     (if b = 0 then Inl ZeroDivisionError
      else case dbl_round (a * sgn b) \<bar>b\<bar> of
             Finite m e \<Rightarrow> Inr (Finite m e)
           | _ \<Rightarrow> Inl OverflowError)"

text \<open>The conversion of an int operand in mixed arithmetic: raises when the int is too large.\<close>

definition float_of_int :: "int \<Rightarrow> pyexn + dbl" where
  "float_of_int a =
     (case dbl_round a 1 of
        Finite m e \<Rightarrow> Inr (Finite m e)
      | _ \<Rightarrow> Inl OverflowError)"

text \<open>\<^verbatim>\<open>int(x)\<close> on a float truncates toward zero.\<close>

definition int_of_dbl :: "dbl \<Rightarrow> pyexn + int" where
  "int_of_dbl x =
     (case x of
        Finite m e \<Rightarrow> Inr (if 0 \<le> e then m * 2 ^ nat e else sgn m * (\<bar>m\<bar> div 2 ^ nat (- e)))
      | NaN \<Rightarrow> Inl ValueError
      | _ \<Rightarrow> Inl OverflowError)"

text \<open>The literal \<^verbatim>\<open>.9\<close>.\<close>

definition point9 :: dbl where
  "point9 = dbl_round 9 10"

text \<open>
  A number held by \<^verbatim>\<open>MAX_VRAM_USAGE\<close> and \<^verbatim>\<open>last_warning_vram\<close>: an int under the static
  configuration, a float after auto-detection.
\<close>

datatype pynum = PyInt int | PyFloat dbl

text \<open>
  \<open>num_add x c\<close> and \<open>num_sub x c\<close> are \<^verbatim>\<open>x + c\<close> and \<^verbatim>\<open>x - c\<close> for an int \<open>c\<close> that a float
  holds exactly; the script only uses the literals 20 and \<^verbatim>\<open>THRESHOLD\<close> here.
\<close>

definition num_add :: "pynum \<Rightarrow> int \<Rightarrow> pynum" where
  "num_add x c = (case x of PyInt a \<Rightarrow> PyInt (a + c) | PyFloat d \<Rightarrow> PyFloat (dbl_add d (dbl_round c 1)))"

definition num_sub :: "pynum \<Rightarrow> int \<Rightarrow> pynum" where
  "num_sub x c = (case x of PyInt a \<Rightarrow> PyInt (a - c) | PyFloat d \<Rightarrow> PyFloat (dbl_add d (dbl_round (- c) 1)))"

text \<open>Comparisons between ints and floats are exact in Python.\<close>

definition num_less :: "pynum \<Rightarrow> pynum \<Rightarrow> bool" where
  "num_less x y =
     (case (x, y) of
        (PyInt a, PyInt b) \<Rightarrow> a < b
      | (PyInt a, PyFloat d) \<Rightarrow> dbl_less (Finite a 0) d
      | (PyFloat c, PyInt b) \<Rightarrow> dbl_less c (Finite b 0)
      | (PyFloat c, PyFloat d) \<Rightarrow> dbl_less c d)"

definition num_le :: "pynum \<Rightarrow> pynum \<Rightarrow> bool" where
  "num_le x y =
     (case (x, y) of
        (PyInt a, PyInt b) \<Rightarrow> a \<le> b
      | (PyInt a, PyFloat d) \<Rightarrow> dbl_le (Finite a 0) d
      | (PyFloat c, PyInt b) \<Rightarrow> dbl_le c (Finite b 0)
      | (PyFloat c, PyFloat d) \<Rightarrow> dbl_le c d)"

subsection \<open>Decimal text of an int, as an f-string prints it\<close>

definition digit_char :: "int \<Rightarrow> char" where
  "digit_char d =
     (if d = 0 then CHR ''0'' else if d = 1 then CHR ''1'' else if d = 2 then CHR ''2''
      else if d = 3 then CHR ''3'' else if d = 4 then CHR ''4'' else if d = 5 then CHR ''5''
      else if d = 6 then CHR ''6'' else if d = 7 then CHR ''7'' else if d = 8 then CHR ''8''
      else CHR ''9'')"

function str_digits :: "int \<Rightarrow> string" where
  "str_digits n =
     (if n < 10 then [digit_char n] else str_digits (n div 10) @ [digit_char (n mod 10)])"
  by pat_completeness auto
termination
  by (relation "measure nat") auto

declare str_digits.simps [simp del]

definition str_int :: "int \<Rightarrow> string" where
  "str_int i = (if i < 0 then CHR ''-'' # str_digits (- i) else str_digits i)"

section \<open>Module constants and globals\<close>

text \<open>
  \<^verbatim>\<open>THRESHOLD\<close>, \<^verbatim>\<open>MAX_TEMP\<close>, \<^verbatim>\<open>WAITTIME\<close> and \<^verbatim>\<open>VERBOSITY_LEVEL\<close> are never assigned after
  the module is loaded. \<^verbatim>\<open>MAX_VRAM_USAGE\<close> and \<^verbatim>\<open>VRAM_TOTAL\<close> are the two globals that
  \<^verbatim>\<open>update_variables\<close> rewrites, so they are state.
\<close>

definition THRESHOLD :: int where
  "THRESHOLD = 100"

definition MAX_TEMP :: int where
  "MAX_TEMP = 80"

definition WAITTIME :: int where
  "WAITTIME = 2"

definition VERBOSITY_LEVEL :: int where
  "VERBOSITY_LEVEL = 0"

record globals =
  MAX_VRAM_USAGE :: pynum
  VRAM_TOTAL :: int

definition defaults :: globals where
  "defaults = \<lparr>MAX_VRAM_USAGE = PyInt 3800, VRAM_TOTAL = 2048\<rparr>"

section \<open>The outside world\<close>

text \<open>
  What a call of \<^verbatim>\<open>subprocess.check_output(["nvidia-smi", ...])\<close> followed by the decoding
  and parsing of its output gives: the parsed value; output that is not valid UTF-8
  (\<^verbatim>\<open>output.decode\<close> raises \<^verbatim>\<open>UnicodeDecodeError\<close>); output that decodes and holds no
  parsable number; a non-zero exit status (\<^verbatim>\<open>CalledProcessError\<close>); or no such program
  (\<^verbatim>\<open>FileNotFoundError\<close>). The readings of \<^verbatim>\<open>get_vram_usage\<close> and \<^verbatim>\<open>get_temp\<close> come
  from the pattern \<^verbatim>\<open>\d+\<close>, hence \<open>nat\<close>.
\<close>

datatype 'a query = Returned 'a | Undecodable | Unparsable | NonZeroExit | NotInstalled

text \<open>The query of the GPU's name is decoded and not parsed.\<close>

datatype name_result = GpuName string | NameUndecodable | NameNonZeroExit | NameNotInstalled

text \<open>What \<^verbatim>\<open>subprocess.run(["notify-send", ...], check=True)\<close> does.\<close>

datatype notify_result = Delivered | NotifyFailed | NotifyMissing

record tick_env =
  usage_query :: "nat query"
  temp_query :: "nat query"
  notify :: notify_result

record startup_env =
  name_query :: name_result
  total_query :: "int query"

text \<open>What the process writes and does, in order.\<close>

datatype level = LOG | WARN | ERR

datatype logtext =
    Autodetecting
  | DetectedGPU string
  | DetectedVRAM int
  | MaxVramUsageSet pynum
  | UpdateEvery int
  | MaxTempSet int
  | GatherFailedError
  | GatherFailedMissing
  | VramUsageFailedError
  | VramUsageFailedMissing
  | TempFailedError
  | TempFailedMissing
  | NotifyError
  | UsageLine int int
  | NoAutoWarning

datatype event =
    Stdout level nat logtext
  | Print string
  | NotifySend string
  | Sleep int

text \<open>How the process stops: \<^verbatim>\<open>sys.exit()\<close> with no argument, or an exception nobody catches.\<close>

datatype stop = SystemExit | Uncaught pyexn

definition exit_status :: "stop \<Rightarrow> int" where
  "exit_status s = (case s of SystemExit \<Rightarrow> 0 | Uncaught ex \<Rightarrow> 1)"

datatype outcome = Polling pynum | Stopped stop

section \<open>The functions of the script\<close>

definition log_mess :: "logtext \<Rightarrow> nat \<Rightarrow> event list" where
  "log_mess message layer = (if VERBOSITY_LEVEL > 0 then [] else [Stdout LOG layer message])"

definition log_warn :: "logtext \<Rightarrow> nat \<Rightarrow> event list" where
  "log_warn message layer = (if VERBOSITY_LEVEL > 1 then [] else [Stdout WARN layer message])"

definition log_err :: "logtext \<Rightarrow> nat \<Rightarrow> event list" where
  "log_err message layer = [Stdout ERR layer message]"

definition update_variables :: "globals \<Rightarrow> startup_env \<Rightarrow> event list \<times> (stop + globals)" where
  "update_variables g env =
     (let ev0 = log_mess Autodetecting 0 in
      case name_query env of
        NameNonZeroExit \<Rightarrow> (ev0 @ log_err GatherFailedError 1, Inr g)
      | NameNotInstalled \<Rightarrow> (ev0 @ log_err GatherFailedMissing 1, Inl SystemExit)
      | NameUndecodable \<Rightarrow> (ev0, Inl (Uncaught UnicodeDecodeError))
      | GpuName name \<Rightarrow>
          (let ev1 = ev0 @ log_mess (DetectedGPU name) 1 in
           case total_query env of
             NonZeroExit \<Rightarrow> (ev1 @ log_err GatherFailedError 1, Inr g)
           | NotInstalled \<Rightarrow> (ev1 @ log_err GatherFailedMissing 1, Inl SystemExit)
           | Undecodable \<Rightarrow> (ev1, Inl (Uncaught UnicodeDecodeError))
           | Unparsable \<Rightarrow> (ev1, Inl (Uncaught ValueError))
           | Returned detected \<Rightarrow>
               (let ev2 = ev1 @ log_mess (DetectedVRAM detected) 1 in
                case float_of_int detected of
                  Inl ex \<Rightarrow> (ev2, Inl (Uncaught ex))
                | Inr f \<Rightarrow>
                    (let m = PyFloat (dbl_mul f point9) in
                     (ev2 @ log_mess (MaxVramUsageSet m) 1 @ log_mess (UpdateEvery WAITTIME) 1
                        @ log_mess (MaxTempSet MAX_TEMP) 1,
                      Inr \<lparr>MAX_VRAM_USAGE = m, VRAM_TOTAL = detected\<rparr>)))))"

definition get_vram_usage :: "nat query \<Rightarrow> event list \<times> (stop + int)" where
  "get_vram_usage q =
     (case q of
        Returned n \<Rightarrow> ([], Inr (int n))
      | Undecodable \<Rightarrow> ([], Inl (Uncaught UnicodeDecodeError))
      | Unparsable \<Rightarrow> ([], Inl (Uncaught AttributeError))
      | NonZeroExit \<Rightarrow> (log_err VramUsageFailedError 0, Inl SystemExit)
      | NotInstalled \<Rightarrow> (log_err VramUsageFailedMissing 0, Inl SystemExit))"

definition get_temp :: "nat query \<Rightarrow> event list \<times> (stop + int)" where
  "get_temp q =
     (case q of
        Returned n \<Rightarrow> ([], Inr (int n))
      | Undecodable \<Rightarrow> ([], Inl (Uncaught UnicodeDecodeError))
      | Unparsable \<Rightarrow> ([], Inl (Uncaught AttributeError))
      | NonZeroExit \<Rightarrow> (log_err TempFailedError 0, Inl SystemExit)
      | NotInstalled \<Rightarrow> (log_err TempFailedMissing 0, Inl SystemExit))"

definition send_vram_warning :: "string \<Rightarrow> notify_result \<Rightarrow> event list \<times> stop option" where
  "send_vram_warning message r =
     (let ev = [Print (''Warning! '' @ message)] in
      case r of
        Delivered \<Rightarrow> (ev @ [NotifySend message], None)
      | NotifyFailed \<Rightarrow> (ev @ [NotifySend message] @ log_err NotifyError 0, None)
      | NotifyMissing \<Rightarrow> (ev, Some (Uncaught FileNotFoundError)))"

text \<open>The percentage of the warning, \<^verbatim>\<open>(int)((vram_usage / VRAM_TOTAL) * 100)\<close>.\<close>

definition percent :: "int \<Rightarrow> int \<Rightarrow> pyexn + int" where
  "percent vram_usage vram_total =
     (case int_truediv vram_usage vram_total of
        Inl ex \<Rightarrow> Inl ex
      | Inr x \<Rightarrow> int_of_dbl (dbl_mul x (dbl_round 100 1)))"

definition warning_message :: "int \<Rightarrow> int \<Rightarrow> int \<Rightarrow> string" where
  "warning_message vram_usage vram_total pct =
     ''VRAM usage critical! '' @ str_int vram_usage @ ''/'' @ str_int vram_total @ ''Mib, ''
       @ ''('' @ str_int pct @ ''%)''"

text \<open>The first \<^verbatim>\<open>if\<close> of the loop body of \<^verbatim>\<open>start_monitoring\<close>.\<close>

definition rearm :: "globals \<Rightarrow> pynum \<Rightarrow> int \<Rightarrow> pynum" where
  "rearm g last_warning_vram vram_usage =
     (if num_less (PyInt vram_usage) (num_sub last_warning_vram THRESHOLD)
         \<and> num_le (MAX_VRAM_USAGE g) last_warning_vram
      then num_sub last_warning_vram THRESHOLD
      else last_warning_vram)"

text \<open>
  One iteration of \<^verbatim>\<open>while True\<close>. The test \<^verbatim>\<open>vram_usage is not None\<close> always succeeds,
  since \<^verbatim>\<open>get_vram_usage\<close> returns an int or does not return.
\<close>

definition tick :: "globals \<Rightarrow> pynum \<Rightarrow> tick_env \<Rightarrow> event list \<times> outcome" where
  "tick g last_warning_vram env =
     (case get_vram_usage (usage_query env) of
        (ev1, Inl s) \<Rightarrow> (ev1, Stopped s)
      | (ev1, Inr vram_usage) \<Rightarrow>
          (case get_temp (temp_query env) of
             (ev2, Inl s) \<Rightarrow> (ev1 @ ev2, Stopped s)
           | (ev2, Inr gpu_temp) \<Rightarrow>
               (let last1 = rearm g last_warning_vram vram_usage;
                    ev3 = ev1 @ ev2 @ log_mess (UsageLine vram_usage gpu_temp) 0
                in if num_less (num_add last1 THRESHOLD) (PyInt vram_usage)
                   then (let last2 = num_add last1 THRESHOLD in
                         case percent vram_usage (VRAM_TOTAL g) of
                           Inl ex \<Rightarrow> (ev3, Stopped (Uncaught ex))
                         | Inr pct \<Rightarrow>
                             (case send_vram_warning
                                     (warning_message vram_usage (VRAM_TOTAL g) pct) (notify env) of
                                (ev4, Some s) \<Rightarrow> (ev3 @ ev4, Stopped s)
                              | (ev4, None) \<Rightarrow> (ev3 @ ev4 @ [Sleep WAITTIME], Polling last2)))
                   else (ev3 @ [Sleep WAITTIME], Polling last1))))"

text \<open>The loop, run on the finite prefix of the world's answers that is given; one list of
  events for each iteration begun.\<close>

fun monitoring_loop :: "globals \<Rightarrow> pynum \<Rightarrow> tick_env list \<Rightarrow> event list list \<times> outcome" where
  "monitoring_loop g last_warning_vram [] = ([], Polling last_warning_vram)"
| "monitoring_loop g last_warning_vram (env # envs) =
     (case tick g last_warning_vram env of
        (evs, Stopped s) \<Rightarrow> ([evs], Stopped s)
      | (evs, Polling last') \<Rightarrow>
          (case monitoring_loop g last' envs of (tr, out) \<Rightarrow> (evs # tr, out)))"

definition start_monitoring :: "globals \<Rightarrow> tick_env list \<Rightarrow> event list list \<times> outcome" where
  "start_monitoring g envs = monitoring_loop g (num_sub (MAX_VRAM_USAGE g) 20) envs"

text \<open>\<^verbatim>\<open>main\<close>, given whether \<^verbatim>\<open>--noauto\<close> is absent (\<open>auto\<close>).\<close>

definition main :: "bool \<Rightarrow> startup_env \<Rightarrow> tick_env list \<Rightarrow> event list \<times> event list list \<times> outcome" where
  "main auto senv envs =
     (if auto
      then (case update_variables defaults senv of
              (ev, Inl s) \<Rightarrow> (ev, [], Stopped s)
            | (ev, Inr g) \<Rightarrow> (ev, start_monitoring g envs))
      else (log_warn NoAutoWarning 0, start_monitoring defaults envs))"

text \<open>The warnings among some events: what \<^verbatim>\<open>send_vram_warning\<close> prints and sends.\<close>

definition is_warning :: "event \<Rightarrow> bool" where
  "is_warning e = (case e of Print s \<Rightarrow> True | NotifySend s \<Rightarrow> True | _ \<Rightarrow> False)"

definition warnings :: "event list \<Rightarrow> event list" where
  "warnings evs = filter is_warning evs"

fun sent :: "event list \<Rightarrow> string list" where
  "sent [] = []"
| "sent (NotifySend m # evs) = m # sent evs"
| "sent (e # evs) = sent evs"

text \<open>The real number that \<open>Finite m e\<close> stands for.\<close>

definition dbl_val :: "int \<Rightarrow> int \<Rightarrow> real" where
  "dbl_val m e = of_int m * 2 powi e"

text \<open>\<open>dbl_at_least r x\<close>: the double \<open>x\<close> is a number or \<open>+inf\<close>, and it is not below the
  real \<open>r\<close>.\<close>

definition dbl_at_least :: "real \<Rightarrow> dbl \<Rightarrow> bool" where
  "dbl_at_least r x = (case x of Finite m e \<Rightarrow> r \<le> dbl_val m e | PosInf \<Rightarrow> True | _ \<Rightarrow> False)"

text \<open>The real number that a ceiling or a threshold holds, when it is an int or a finite
  float.\<close>

definition finite_val :: "pynum \<Rightarrow> real option" where
  "finite_val x =
     (case x of
        PyInt a \<Rightarrow> Some (real_of_int a)
      | PyFloat d \<Rightarrow> (case d of Finite m e \<Rightarrow> Some (dbl_val m e) | _ \<Rightarrow> None))"

section \<open>Evaluations\<close>

lemma percent_3950_8192: "percent 3950 8192 = Inr 48"
  by code_simp

lemma percent_4000_8192: "percent 4000 8192 = Inr 48"
  by code_simp

lemma percent_3900_2048: "percent 3900 2048 = Inr 190"
  by code_simp

lemma percent_29_100: "percent 29 100 = Inr 28"
  by code_simp

lemma percent_4200_4506: "percent 4200 4506 = Inr 93"
  by code_simp

lemma message_3950: "warning_message 3950 8192 48 = ''VRAM usage critical! 3950/8192Mib, (48%)''"
  by code_simp

lemma message_3900: "warning_message 3900 2048 190 = ''VRAM usage critical! 3900/2048Mib, (190%)''"
  by code_simp

text \<open>
  Auto-detection at 8192 MiB: the ceiling is the float \<open>7372.8\<close>, the threshold starts at
  \<open>7352.8\<close>, usage 7452 does not fire and usage 7453 does. Under a float ceiling a step of
  \<^verbatim>\<open>THRESHOLD\<close> is rounded: \<open>8152.8 + 100\<close> loses its last bit.
\<close>

lemma autodetect_8192:
  "update_variables defaults \<lparr>name_query = GpuName ''GPU'', total_query = Returned 8192\<rparr>
     = ([Stdout LOG 0 Autodetecting, Stdout LOG 1 (DetectedGPU ''GPU''),
         Stdout LOG 1 (DetectedVRAM 8192),
         Stdout LOG 1 (MaxVramUsageSet (PyFloat (Finite 8106479329266893 (- 40)))),
         Stdout LOG 1 (UpdateEvery 2), Stdout LOG 1 (MaxTempSet 80)],
        Inr \<lparr>MAX_VRAM_USAGE = PyFloat (Finite 8106479329266893 (- 40)), VRAM_TOTAL = 8192\<rparr>)"
  by code_simp

lemma autodetect_8192_start:
  "start_monitoring \<lparr>MAX_VRAM_USAGE = PyFloat (Finite 8106479329266893 (- 40)), VRAM_TOTAL = 8192\<rparr> []
     = ([], Polling (PyFloat (Finite 8084489096711373 (- 40))))"
  by code_simp

lemma autodetect_8192_ticks:
  "start_monitoring \<lparr>MAX_VRAM_USAGE = PyFloat (Finite 8106479329266893 (- 40)), VRAM_TOTAL = 8192\<rparr>
      [\<lparr>usage_query = Returned 7452, temp_query = Returned 50, notify = Delivered\<rparr>,
       \<lparr>usage_query = Returned 7453, temp_query = Returned 50, notify = Delivered\<rparr>]
     = ([[Stdout LOG 0 (UsageLine 7452 50), Sleep 2],
         [Stdout LOG 0 (UsageLine 7453 50),
          Print ''Warning! VRAM usage critical! 7453/8192Mib, (90%)'',
          NotifySend ''VRAM usage critical! 7453/8192Mib, (90%)'', Sleep 2]],
        Polling (PyFloat (Finite 8194440259488973 (- 40))))"
  by code_simp

lemma float_step_rounds:
  "num_add (PyFloat (Finite 8964098398932173 (- 40))) THRESHOLD
     = PyFloat (Finite 4537024780854886 (- 39))
   \<and> 8964098398932173 + 100 * 2 ^ 40 = (9074049561709773 :: int)
   \<and> 2 * 4537024780854886 = (9074049561709772 :: int)"
  by code_simp

lemmas io_defs = tick_def get_vram_usage_def get_temp_def send_vram_warning_def rearm_def
  num_less_def num_le_def num_add_def num_sub_def log_mess_def log_err_def log_warn_def
  VERBOSITY_LEVEL_def

section \<open>Rounding: what a double is at least\<close>

lemma bitlen_powi:
  assumes "0 < n"
  shows "2 powi (bitlen n - 1) \<le> real_of_int n" and "real_of_int n < 2 powi (bitlen n)"
proof -
  have b: "1 \<le> bitlen n"
    using assms bitlen_eq_zero_iff [of n] bitlen_nonneg [of n] by linarith
  from bitlen_bounds [OF assms]
  have lo: "(2::int) ^ nat (bitlen n - 1) \<le> n" and hi: "n < (2::int) ^ nat (bitlen n)"
    by simp_all
  from lo have "real_of_int (2 ^ nat (bitlen n - 1)) \<le> real_of_int n"
    by (simp only: of_int_le_iff)
  then show "2 powi (bitlen n - 1) \<le> real_of_int n"
    using b by (simp add: power_int_def)
  from hi have "real_of_int n < real_of_int (2 ^ nat (bitlen n))"
    by (simp only: of_int_less_iff)
  then show "real_of_int n < 2 powi (bitlen n)"
    using b by (simp add: power_int_def)
qed

lemma pow2_test:
  assumes "0 < d"
  shows "(if 0 \<le> k then d * 2 ^ nat k \<le> n else d \<le> n * 2 ^ nat (- k))
     \<longleftrightarrow> 2 powi k \<le> real_of_int n / real_of_int d"
proof (cases "0 \<le> k")
  case True
  have "(d * 2 ^ nat k \<le> n) \<longleftrightarrow> (real_of_int (d * 2 ^ nat k) \<le> real_of_int n)"
    by (simp only: of_int_le_iff)
  also have "\<dots> \<longleftrightarrow> 2 ^ nat k \<le> real_of_int n / real_of_int d"
    using assms by (simp add: field_simps)
  finally show ?thesis
    using True by (simp add: power_int_def)
next
  case False
  have "(d \<le> n * 2 ^ nat (- k)) \<longleftrightarrow> (real_of_int d \<le> real_of_int (n * 2 ^ nat (- k)))"
    by (simp only: of_int_le_iff)
  also have "\<dots> \<longleftrightarrow> inverse 2 ^ nat (- k) \<le> real_of_int n / real_of_int d"
    using assms by (simp add: field_simps power_inverse)
  finally show ?thesis
    using False by (simp add: power_int_def)
qed

lemma ilog2_bounds:
  assumes "0 < n" "0 < d"
  shows "2 powi (ilog2 n d) \<le> real_of_int n / real_of_int d"
    and "real_of_int n / real_of_int d < 2 powi (ilog2 n d + 1)"
proof -
  define k where "k = bitlen n - bitlen d"
  define q where "q = real_of_int n / real_of_int d"
  have dpos: "0 < real_of_int d" and npos: "0 < real_of_int n"
    using assms by simp_all
  have "q < 2 powi bitlen n / 2 powi (bitlen d - 1)"
    unfolding q_def
    using bitlen_powi [OF assms(1)] bitlen_powi [OF assms(2)] dpos npos
    by (intro frac_less) auto
  then have up: "q < 2 powi (k + 1)"
    by (simp add: k_def power_int_diff [symmetric] algebra_simps)
  have "2 powi (bitlen n - 1) / 2 powi (bitlen d) < q"
    unfolding q_def
    using bitlen_powi [OF assms(1)] bitlen_powi [OF assms(2)] dpos npos
    by (intro frac_less2) auto
  then have lo: "2 powi (k - 1) < q"
    by (simp add: k_def power_int_diff [symmetric] algebra_simps)
  have il: "ilog2 n d = (if 2 powi k \<le> q then k else k - 1)"
    unfolding ilog2_def Let_def k_def [symmetric] q_def
    using pow2_test [OF assms(2), of k n] by simp
  show "2 powi (ilog2 n d) \<le> real_of_int n / real_of_int d"
    using il lo by (auto simp: q_def)
  show "real_of_int n / real_of_int d < 2 powi (ilog2 n d + 1)"
    using il up by (auto simp: q_def)
qed

lemma rne_ge:
  assumes "0 < d" and "real_of_int z \<le> real_of_int n / real_of_int d"
  shows "z \<le> rne n d"
proof -
  have "z \<le> \<lfloor>real_of_int n / real_of_int d\<rfloor>"
    using assms(2) by (simp add: le_floor_iff)
  then have "z \<le> n div d"
    by (simp add: floor_divide_of_int_eq)
  then show ?thesis
    by (simp add: rne_def Let_def)
qed

lemma powi_nonneg: "0 \<le> e \<Longrightarrow> (2::real) powi e = 2 ^ nat e"
  by (simp add: power_int_def)

lemma powi_neg: "e < 0 \<Longrightarrow> (2::real) powi e = 1 / 2 ^ nat (- e)"
  by (simp add: power_int_def power_inverse field_simps)

lemma dbl_val_nonneg: "0 \<le> dbl_val m e \<longleftrightarrow> 0 \<le> m"
proof
  assume a: "0 \<le> dbl_val m e"
  show "0 \<le> m"
  proof (rule ccontr)
    assume "\<not> 0 \<le> m"
    then have "real_of_int m < 0" by simp
    then have "real_of_int m * 2 powi e < 0"
      by (rule mult_neg_pos) simp
    with a show False by (simp add: dbl_val_def)
  qed
next
  assume "0 \<le> m"
  then show "0 \<le> dbl_val m e"
    by (simp add: dbl_val_def)
qed

lemma round_pos_val:
  "dbl_val (fst (round_pos n d)) (snd (round_pos n d)) =
     (let e = max (ilog2 n d - 52) (- 1074)
      in real_of_int (if 0 \<le> e then rne n (d * 2 ^ nat e) else rne (n * 2 ^ nat (- e)) d) * 2 powi e)"
proof -
  define e where "e = max (ilog2 n d - 52) (- 1074)"
  define m where "m = (if 0 \<le> e then rne n (d * 2 ^ nat e) else rne (n * 2 ^ nat (- e)) d)"
  have rp: "round_pos n d = (if m = 2 ^ 53 then (2 ^ 52, e + 1) else (m, e))"
    unfolding round_pos_def Let_def e_def [symmetric] m_def [symmetric] ..
  have "dbl_val (2 ^ 52) (e + 1) = real_of_int (2 ^ 53) * 2 powi e"
    by (simp add: dbl_val_def power_int_add)
  then have "dbl_val (fst (round_pos n d)) (snd (round_pos n d)) = real_of_int m * 2 powi e"
    unfolding rp by (cases "m = 2 ^ 53") (simp_all add: dbl_val_def)
  then show ?thesis
    unfolding Let_def e_def [symmetric] m_def [symmetric] .
qed

lemma mantissa_ge:
  assumes "0 < d"
    and "real_of_int z \<le> real_of_int n / real_of_int d / 2 powi e"
  shows "z \<le> (if 0 \<le> e then rne n (d * 2 ^ nat e) else rne (n * 2 ^ nat (- e)) d)"
proof (cases "0 \<le> e")
  case True
  have "0 < d * 2 ^ nat e" using assms(1) by simp
  moreover have "real_of_int z \<le> real_of_int n / real_of_int (d * 2 ^ nat e)"
    using assms(2) unfolding powi_nonneg [OF True] by simp
  ultimately have "z \<le> rne n (d * 2 ^ nat e)"
    by (rule rne_ge)
  then show ?thesis using True by simp
next
  case False
  then have neg: "e < 0" by simp
  have "real_of_int z \<le> real_of_int (n * 2 ^ nat (- e)) / real_of_int d"
    using assms(2) unfolding powi_neg [OF neg] by simp
  with assms(1) have "z \<le> rne (n * 2 ^ nat (- e)) d"
    by (rule rne_ge)
  then show ?thesis using False by simp
qed

lemma round_pos_val_ge:
  assumes "0 < n" "0 < d"
    and "0 \<le> a" "a < 2 ^ 53" "- 1074 \<le> j"
    and "real_of_int a * 2 powi j \<le> real_of_int n / real_of_int d"
  shows "real_of_int a * 2 powi j \<le> dbl_val (fst (round_pos n d)) (snd (round_pos n d))"
proof -
  define e where "e = max (ilog2 n d - 52) (- 1074)"
  define m where "m = (if 0 \<le> e then rne n (d * 2 ^ nat e) else rne (n * 2 ^ nat (- e)) d)"
  define q where "q = real_of_int n / real_of_int d"
  have val: "dbl_val (fst (round_pos n d)) (snd (round_pos n d)) = real_of_int m * 2 powi e"
    by (simp add: round_pos_val Let_def e_def m_def)
  have pe: "0 < (2::real) powi e" by simp
  show ?thesis
  proof (cases "e \<le> j")
    case True
    define z where "z = a * 2 ^ nat (j - e)"
    have "2 powi j = 2 powi (j - e) * (2::real) powi e"
      by (simp add: power_int_add [symmetric])
    moreover have "(2::real) powi (j - e) = 2 ^ nat (j - e)"
      using True by (simp add: power_int_def)
    ultimately have zq: "real_of_int z * 2 powi e = real_of_int a * 2 powi j"
      by (simp add: z_def)
    then have "real_of_int z = real_of_int a * 2 powi j / 2 powi e"
      using pe by (simp add: field_simps)
    also have "\<dots> \<le> q / 2 powi e"
      using assms(6) unfolding q_def by (rule divide_right_mono) simp
    finally have "z \<le> m"
      unfolding m_def q_def by (rule mantissa_ge [OF assms(2)])
    then have "real_of_int z * 2 powi e \<le> real_of_int m * 2 powi e"
      using pe by (simp add: mult_right_mono)
    with zq val show ?thesis by simp
  next
    case False
    then have e: "e = ilog2 n d - 52"
      using assms(5) by (simp add: e_def max_def split: if_splits)
    have "2 powi (ilog2 n d) \<le> q"
      unfolding q_def by (rule ilog2_bounds [OF assms(1,2)])
    then have "2 powi (ilog2 n d) / 2 powi e \<le> q / 2 powi e"
      by (rule divide_right_mono) simp
    moreover have "2 powi (ilog2 n d) / 2 powi e = real_of_int (2 ^ 52)"
      by (simp add: e power_int_diff [symmetric])
    ultimately have "real_of_int (2 ^ 52) \<le> q / 2 powi e"
      by simp
    then have "2 ^ 52 \<le> m"
      unfolding m_def q_def by (rule mantissa_ge [OF assms(2)])
    then have "real_of_int (2 ^ 52) * 2 powi e \<le> real_of_int m * 2 powi e"
      using pe by (simp only: of_int_le_iff mult_right_mono less_imp_le)
    moreover have "real_of_int a * 2 powi j \<le> real_of_int (2 ^ 53) * 2 powi j"
      using assms(4) by (simp add: mult_right_mono)
    moreover have "real_of_int (2 ^ 53) * 2 powi j = real_of_int (2 ^ 52) * 2 powi (j + 1)"
      by (simp add: power_int_add)
    moreover have "(2::real) powi (j + 1) \<le> 2 powi e"
      using False by (intro power_int_increasing) auto
    then have "real_of_int (2 ^ 52) * 2 powi (j + 1) \<le> real_of_int (2 ^ 52) * 2 powi e"
      by (simp add: mult_left_mono)
    ultimately show ?thesis
      using val by linarith
  qed
qed

lemma dbl_round_val_ge:
  assumes "0 < n" "0 < d"
    and "dbl_round n d = Finite m e"
    and "0 \<le> a" "a < 2 ^ 53" "- 1074 \<le> j"
    and "real_of_int a * 2 powi j \<le> real_of_int n / real_of_int d"
  shows "real_of_int a * 2 powi j \<le> dbl_val m e \<and> 0 \<le> m"
proof -
  obtain m' e' where r: "round_pos n d = (m', e')"
    by (cases "round_pos n d")
  from round_pos_val_ge [OF assms(1,2,4,5,6,7)] r
  have ge: "real_of_int a * 2 powi j \<le> dbl_val m' e'"
    by simp
  have "0 \<le> real_of_int a * 2 powi j"
    using assms(4) by simp
  with ge have "0 \<le> dbl_val m' e'" by linarith
  then have m'0: "0 \<le> m'"
    by (simp only: dbl_val_nonneg)
  from assms(1,3) r have "Finite m e = (if m' = 0 then Finite 0 0 else Finite m' e')"
    by (simp add: dbl_round_def split: if_splits)
  then consider "m' = 0" "m = 0" "e = 0" | "m = m'" "e = e'"
    by (auto split: if_splits)
  then show ?thesis
  proof cases
    case 1
    with ge show ?thesis by (simp add: dbl_val_def)
  next
    case 2
    with ge m'0 show ?thesis by simp
  qed
qed

lemma dbl_scaled_val_ge:
  assumes "0 < M"
    and "dbl_scaled M E = Finite m e"
    and "0 \<le> a" "a < 2 ^ 53" "- 1074 \<le> j"
    and "real_of_int a * 2 powi j \<le> real_of_int M * 2 powi E"
  shows "real_of_int a * 2 powi j \<le> dbl_val m e \<and> 0 \<le> m"
proof (cases "0 \<le> E")
  case True
  have "0 < M * 2 ^ nat E" using assms(1) by simp
  moreover have "dbl_round (M * 2 ^ nat E) 1 = Finite m e"
    using assms(2) True by (simp add: dbl_scaled_def)
  moreover have "real_of_int a * 2 powi j \<le> real_of_int (M * 2 ^ nat E) / real_of_int 1"
    using assms(6) by (simp add: powi_nonneg [OF True])
  ultimately show ?thesis
    using dbl_round_val_ge [of "M * 2 ^ nat E" 1 m e a j] assms(3,4,5) by simp
next
  case False
  have "(0::int) < 2 ^ nat (- E)" by simp
  moreover have "dbl_round M (2 ^ nat (- E)) = Finite m e"
    using assms(2) False by (simp add: dbl_scaled_def)
  moreover have "real_of_int a * 2 powi j \<le> real_of_int M / real_of_int (2 ^ nat (- E))"
    using assms(6) False by (simp add: powi_neg)
  ultimately show ?thesis
    using dbl_round_val_ge [of M "2 ^ nat (- E)" m e a j] assms(1,3,4,5) by simp
qed

lemma int_of_dbl_floor:
  assumes "0 \<le> m"
  shows "int_of_dbl (Finite m e) = Inr \<lfloor>dbl_val m e\<rfloor>"
proof (cases "0 \<le> e")
  case True
  have "dbl_val m e = real_of_int (m * 2 ^ nat e)"
    by (simp add: dbl_val_def powi_nonneg [OF True])
  then have "\<lfloor>dbl_val m e\<rfloor> = m * 2 ^ nat e"
    by (simp only: floor_of_int)
  then show ?thesis
    using True by (simp add: int_of_dbl_def)
next
  case False
  have "dbl_val m e = real_of_int m / real_of_int (2 ^ nat (- e))"
    using False by (simp add: dbl_val_def powi_neg)
  then have "\<lfloor>dbl_val m e\<rfloor> = m div 2 ^ nat (- e)"
    by (simp only: floor_divide_of_int_eq)
  moreover have "sgn m * (\<bar>m\<bar> div 2 ^ nat (- e)) = m div 2 ^ nat (- e)"
    using assms by (cases "m = 0") (simp_all add: sgn_if)
  ultimately show ?thesis
    using False by (simp add: int_of_dbl_def)
qed

lemma hundred: "dbl_round 100 1 = Finite 7036874417766400 (- 46)"
  by code_simp

lemma percent_ge:
  assumes "0 < u" "0 < v"
    and "percent u v = Inr p"
    and "0 < a" "a < 2 ^ 53" "k \<le> 1074"
    and "a * v \<le> u * 2 ^ k"
    and "0 \<le> c" "c < 2 ^ 53"
    and "c * 2 ^ k \<le> 100 * a"
  shows "c \<le> p"
proof -
  from assms(2,3) obtain m1 e1 where x: "dbl_round u v = Finite m1 e1"
    by (auto simp: percent_def int_truediv_def split: dbl.splits sum.splits)
  have bound1: "real_of_int a * 2 powi (- int k) \<le> real_of_int u / real_of_int v"
  proof -
    have "real_of_int (a * v) \<le> real_of_int (u * 2 ^ k)"
      using assms(7) by (simp only: of_int_le_iff)
    then show ?thesis
      using assms(2) by (simp add: power_int_minus field_simps)
  qed
  from dbl_round_val_ge [OF assms(1,2) x _ assms(5) _ bound1] assms(4,6)
  have v1: "real_of_int a * 2 powi (- int k) \<le> dbl_val m1 e1" and m1: "0 \<le> m1"
    by simp_all
  have "0 < real_of_int a * 2 powi (- int k)"
    using assms(4) by simp
  with v1 have "0 < dbl_val m1 e1" by linarith
  then have m1pos: "0 < m1"
    using m1 by (cases "m1 = 0") (simp_all add: dbl_val_def)
  from assms(2,3) x have y: "int_of_dbl (dbl_scaled (m1 * 7036874417766400) (e1 - 46)) = Inr p"
    by (simp add: percent_def int_truediv_def hundred dbl_mul_def)
  then obtain m2 e2 where s: "dbl_scaled (m1 * 7036874417766400) (e1 - 46) = Finite m2 e2"
    by (cases "dbl_scaled (m1 * 7036874417766400) (e1 - 46)") (simp_all add: int_of_dbl_def)
  have prod: "real_of_int (m1 * 7036874417766400) * 2 powi (e1 - 46) = 100 * dbl_val m1 e1"
    by (simp add: dbl_val_def power_int_diff)
  have "real_of_int c * 2 ^ k \<le> 100 * real_of_int a"
  proof -
    have "real_of_int (c * 2 ^ k) \<le> real_of_int (100 * a)"
      using assms(10) by (simp only: of_int_le_iff)
    then show ?thesis by simp
  qed
  then have "real_of_int c \<le> 100 * (real_of_int a * 2 powi (- int k))"
    by (simp add: power_int_minus field_simps)
  also have "\<dots> \<le> 100 * dbl_val m1 e1"
    using v1 by simp
  finally have bound2: "real_of_int c * 2 powi 0 \<le> real_of_int (m1 * 7036874417766400) * 2 powi (e1 - 46)"
    using prod by simp
  have "0 < m1 * 7036874417766400" using m1pos by simp
  from dbl_scaled_val_ge [OF this s assms(8,9) _ bound2]
  have v2: "real_of_int c \<le> dbl_val m2 e2" and m2: "0 \<le> m2"
    by simp_all
  from y s int_of_dbl_floor [OF m2, of e2] have "p = \<lfloor>dbl_val m2 e2\<rfloor>"
    by simp
  with v2 show ?thesis
    by (simp add: le_floor_iff)
qed

lemma percent_2048: "3881 \<le> u \<Longrightarrow> percent u 2048 = Inr p \<Longrightarrow> 189 \<le> p"
  using percent_ge [of u 2048 p 3881 11 189] by simp

section \<open>Rounding: what a double is at most, and when the percentage is exact\<close>

lemma rne_le:
  assumes "0 < d" and "real_of_int n / real_of_int d \<le> real_of_int z"
  shows "rne n d \<le> z"
proof -
  have "\<lceil>real_of_int n / real_of_int d\<rceil> \<le> z"
    using assms(2) by (simp add: ceiling_le_iff)
  then have c: "- (- n div d) \<le> z"
    by (simp only: ceiling_divide_eq_div)
  have d0: "d \<noteq> 0" using assms(1) by simp
  show ?thesis
  proof (cases "n mod d = 0")
    case True
    then have "rne n d = n div d"
      using assms(1) by (simp add: rne_def Let_def)
    moreover have "- (- n div d) = n div d"
      using True by (simp add: zdiv_zminus1_eq_if [OF d0])
    ultimately show ?thesis using c by simp
  next
    case False
    have "rne n d \<le> n div d + 1"
      by (simp add: rne_def Let_def)
    moreover have "- (- n div d) = n div d + 1"
      using False by (simp add: zdiv_zminus1_eq_if [OF d0])
    ultimately show ?thesis using c by simp
  qed
qed

lemma mantissa_le:
  assumes "0 < d"
    and "real_of_int n / real_of_int d / 2 powi e \<le> real_of_int z"
  shows "(if 0 \<le> e then rne n (d * 2 ^ nat e) else rne (n * 2 ^ nat (- e)) d) \<le> z"
proof (cases "0 \<le> e")
  case True
  have "0 < d * 2 ^ nat e" using assms(1) by simp
  moreover have "real_of_int n / real_of_int (d * 2 ^ nat e) \<le> real_of_int z"
    using assms(2) unfolding powi_nonneg [OF True] by simp
  ultimately have "rne n (d * 2 ^ nat e) \<le> z"
    by (rule rne_le)
  then show ?thesis using True by simp
next
  case False
  then have neg: "e < 0" by simp
  have "real_of_int (n * 2 ^ nat (- e)) / real_of_int d \<le> real_of_int z"
    using assms(2) unfolding powi_neg [OF neg] by simp
  with assms(1) have "rne (n * 2 ^ nat (- e)) d \<le> z"
    by (rule rne_le)
  then show ?thesis using False by simp
qed

lemma round_pos_val_le:
  assumes "0 < n" "0 < d"
    and "0 \<le> a" "a < 2 ^ 53" "- 1074 \<le> j"
    and "real_of_int n / real_of_int d \<le> real_of_int a * 2 powi j"
  shows "dbl_val (fst (round_pos n d)) (snd (round_pos n d)) \<le> real_of_int a * 2 powi j"
proof -
  define e where "e = max (ilog2 n d - 52) (- 1074)"
  define m where "m = (if 0 \<le> e then rne n (d * 2 ^ nat e) else rne (n * 2 ^ nat (- e)) d)"
  define q where "q = real_of_int n / real_of_int d"
  have val: "dbl_val (fst (round_pos n d)) (snd (round_pos n d)) = real_of_int m * 2 powi e"
    by (simp add: round_pos_val Let_def e_def m_def)
  have pe: "0 < (2::real) powi e" by simp
  have "e \<le> j"
  proof (rule ccontr)
    assume "\<not> e \<le> j"
    then have e: "e = ilog2 n d - 52" and je: "j + 1 \<le> e"
      using assms(5) by (simp_all add: e_def max_def split: if_splits)
    have "2 powi (ilog2 n d) \<le> q"
      unfolding q_def by (rule ilog2_bounds [OF assms(1,2)])
    also have "q \<le> real_of_int a * 2 powi j"
      using assms(6) by (simp add: q_def)
    also have "\<dots> < real_of_int (2 ^ 53) * 2 powi j"
      using assms(4) by (simp add: mult_strict_right_mono)
    also have "\<dots> = 2 powi (j + 1 + 52)"
      by (simp add: power_int_add)
    also have "\<dots> \<le> 2 powi (e + 52)"
      using je by (intro power_int_increasing) auto
    also have "\<dots> = 2 powi (ilog2 n d)"
      by (simp add: e)
    finally show False by simp
  qed
  define z where "z = a * 2 ^ nat (j - e)"
  have "2 powi j = 2 powi (j - e) * (2::real) powi e"
    by (simp add: power_int_add [symmetric])
  moreover have "(2::real) powi (j - e) = 2 ^ nat (j - e)"
    using \<open>e \<le> j\<close> by (simp add: power_int_def)
  ultimately have zq: "real_of_int z * 2 powi e = real_of_int a * 2 powi j"
    by (simp add: z_def)
  have "q / 2 powi e \<le> real_of_int a * 2 powi j / 2 powi e"
    using assms(6) unfolding q_def by (rule divide_right_mono) simp
  also have "\<dots> = real_of_int z"
    using zq pe by (simp add: field_simps)
  finally have "m \<le> z"
    unfolding m_def q_def by (rule mantissa_le [OF assms(2)])
  then have "real_of_int m * 2 powi e \<le> real_of_int z * 2 powi e"
    using pe by (simp add: mult_right_mono)
  with zq val show ?thesis by simp
qed

lemma dbl_round_val_le:
  assumes "0 < n" "0 < d"
    and "dbl_round n d = Finite m e"
    and "0 \<le> a" "a < 2 ^ 53" "- 1074 \<le> j"
    and "real_of_int n / real_of_int d \<le> real_of_int a * 2 powi j"
  shows "dbl_val m e \<le> real_of_int a * 2 powi j"
proof -
  obtain m' e' where r: "round_pos n d = (m', e')"
    by (cases "round_pos n d")
  from round_pos_val_le [OF assms(1,2,4,5,6,7)] r
  have le: "dbl_val m' e' \<le> real_of_int a * 2 powi j"
    by simp
  from assms(1,3) r have "Finite m e = (if m' = 0 then Finite 0 0 else Finite m' e')"
    by (simp add: dbl_round_def split: if_splits)
  then consider "m' = 0" "m = 0" "e = 0" | "m = m'" "e = e'"
    by (auto split: if_splits)
  then show ?thesis
  proof cases
    case 1
    with le show ?thesis by (simp add: dbl_val_def)
  next
    case 2
    with le show ?thesis by simp
  qed
qed

lemma dbl_scaled_val_le:
  assumes "0 < M"
    and "dbl_scaled M E = Finite m e"
    and "0 \<le> a" "a < 2 ^ 53" "- 1074 \<le> j"
    and "real_of_int M * 2 powi E \<le> real_of_int a * 2 powi j"
  shows "dbl_val m e \<le> real_of_int a * 2 powi j"
proof (cases "0 \<le> E")
  case True
  have "0 < M * 2 ^ nat E" using assms(1) by simp
  moreover have "dbl_round (M * 2 ^ nat E) 1 = Finite m e"
    using assms(2) True by (simp add: dbl_scaled_def)
  moreover have "real_of_int (M * 2 ^ nat E) / real_of_int 1 \<le> real_of_int a * 2 powi j"
    using assms(6) by (simp add: powi_nonneg [OF True])
  ultimately show ?thesis
    using dbl_round_val_le [of "M * 2 ^ nat E" 1 m e a j] assms(3,4,5) by simp
next
  case False
  have "(0::int) < 2 ^ nat (- E)" by simp
  moreover have "dbl_round M (2 ^ nat (- E)) = Finite m e"
    using assms(2) False by (simp add: dbl_scaled_def)
  moreover have "real_of_int M / real_of_int (2 ^ nat (- E)) \<le> real_of_int a * 2 powi j"
    using assms(6) False by (simp add: powi_neg)
  ultimately show ?thesis
    using dbl_round_val_le [of M "2 ^ nat (- E)" m e a j] assms(1,3,4,5) by simp
qed

lemma dbl_round_finite:
  assumes "0 < n" "0 < d"
    and "real_of_int n / real_of_int d \<le> 2 powi b" "0 \<le> b" "b \<le> 1022"
  shows "\<exists>m e. dbl_round n d = Finite m e"
proof -
  have le: "(2::real) powi (ilog2 n d) \<le> 2 powi b"
    using ilog2_bounds(1) [OF assms(1,2)] assms(3) by (rule order_trans)
  have "(1::real) < 2" by simp
  then have "ilog2 n d \<le> b"
    using le assms(4) by (rule power_int_le_imp_le_exp)
  then have "snd (round_pos n d) \<le> 971"
    using assms(5) by (simp add: round_pos_def Let_def)
  then show ?thesis
    using assms(1) by (cases "round_pos n d") (simp add: dbl_round_def)
qed

lemma dbl_scaled_finite:
  assumes "0 \<le> M"
    and "real_of_int M * 2 powi E \<le> 2 powi b" "0 \<le> b" "b \<le> 1022"
  shows "\<exists>m e. dbl_scaled M E = Finite m e"
proof (cases "M = 0")
  case True
  then show ?thesis by (simp add: dbl_scaled_def dbl_round_def)
next
  case False
  with assms(1) have M: "0 < M" by simp
  show ?thesis
  proof (cases "0 \<le> E")
    case True
    have "0 < M * 2 ^ nat E" using M by simp
    moreover have "real_of_int (M * 2 ^ nat E) / real_of_int 1 \<le> 2 powi b"
      using assms(2) by (simp add: powi_nonneg [OF True])
    ultimately have "\<exists>m e. dbl_round (M * 2 ^ nat E) 1 = Finite m e"
      using assms(3,4) by (intro dbl_round_finite) simp_all
    then show ?thesis using True by (simp add: dbl_scaled_def)
  next
    case False
    have "real_of_int M / real_of_int (2 ^ nat (- E)) \<le> 2 powi b"
      using assms(2) False by (simp add: powi_neg)
    then have "\<exists>m e. dbl_round M (2 ^ nat (- E)) = Finite m e"
      using M assms(3,4) by (intro dbl_round_finite) simp_all
    then show ?thesis using False by (simp add: dbl_scaled_def)
  qed
qed

lemma dbl_round_zero: "dbl_round 0 d = Finite 0 0"
  by (simp add: dbl_round_def)

lemma dbl_scaled_zero: "dbl_scaled 0 E = Finite 0 0"
  by (simp add: dbl_scaled_def dbl_round_zero)

lemma percent_zero: "0 < v \<Longrightarrow> percent 0 v = Inr 0"
proof -
  assume "0 < v"
  then show ?thesis
    by (simp add: percent_def int_truediv_def hundred dbl_mul_def int_of_dbl_def
        dbl_round_zero dbl_scaled_zero)
qed

lemma percent_defined:
  assumes "0 \<le> u" "0 < v" "u \<le> 2 ^ b * v" "b \<le> 1000"
  shows "\<exists>p. percent u v = Inr p"
proof (cases "u = 0")
  case True
  then show ?thesis
    using percent_zero [OF assms(2)] by simp
next
  case False
  with assms(1) have u: "0 < u" by simp
  have q: "real_of_int u / real_of_int v \<le> real_of_int 1 * 2 powi (int b)"
  proof -
    have "real_of_int u \<le> real_of_int (2 ^ b * v)"
      using assms(3) by (simp only: of_int_le_iff)
    then have "real_of_int u \<le> 2 ^ b * real_of_int v"
      by simp
    then have "real_of_int u / real_of_int v \<le> 2 ^ b"
      using assms(2) by (simp add: pos_divide_le_eq)
    then show ?thesis by simp
  qed
  then have q': "real_of_int u / real_of_int v \<le> 2 powi (int b)"
    by simp
  have b1: "0 \<le> int b" "int b \<le> 1022" "- 1074 \<le> int b"
    using assms(4) by simp_all
  from dbl_round_finite [OF u assms(2) q' b1(1,2)] obtain m1 e1 where x: "dbl_round u v = Finite m1 e1"
    by auto
  have v1: "dbl_val m1 e1 \<le> 2 powi (int b)"
    using dbl_round_val_le [OF u assms(2) x _ _ b1(3) q] by simp
  have "real_of_int 0 * 2 powi 0 \<le> real_of_int u / real_of_int v"
    using u assms(2) by simp
  from dbl_round_val_ge [OF u assms(2) x _ _ _ this] have m1: "0 \<le> m1"
    by simp
  have "real_of_int (m1 * 7036874417766400) * 2 powi (e1 - 46) = 100 * dbl_val m1 e1"
    by (simp add: dbl_val_def power_int_diff)
  also have "\<dots> \<le> 2 powi 7 * 2 powi (int b)"
    using v1 m1 by (intro mult_mono) (simp_all add: dbl_val_nonneg)
  also have "\<dots> = 2 powi (7 + int b)"
    by (rule power_int_add [symmetric]) simp
  finally have "real_of_int (m1 * 7036874417766400) * 2 powi (e1 - 46) \<le> 2 powi (7 + int b)" .
  moreover have "0 \<le> m1 * 7036874417766400" using m1 by simp
  moreover have "0 \<le> 7 + int b" "7 + int b \<le> 1022" using assms(4) by simp_all
  ultimately obtain m2 e2 where "dbl_scaled (m1 * 7036874417766400) (e1 - 46) = Finite m2 e2"
    using dbl_scaled_finite [of "m1 * 7036874417766400" "e1 - 46" "7 + int b"] by blast
  then show ?thesis
    using x assms(2)
    by (simp add: percent_def int_truediv_def hundred dbl_mul_def int_of_dbl_def)
qed

lemma percent_le:
  assumes "0 < u" "0 < v"
    and "percent u v = Inr p"
    and "0 < a" "a < 2 ^ 53" "k \<le> 1074"
    and "u * 2 ^ k \<le> a * v"
    and "100 * a < 2 ^ 53"
  shows "p \<le> 100 * a div 2 ^ k"
proof -
  from assms(2,3) obtain m1 e1 where x: "dbl_round u v = Finite m1 e1"
    by (auto simp: percent_def int_truediv_def split: dbl.splits sum.splits)
  have bound1: "real_of_int u / real_of_int v \<le> real_of_int a * 2 powi (- int k)"
  proof -
    have "real_of_int (u * 2 ^ k) \<le> real_of_int (a * v)"
      using assms(7) by (simp only: of_int_le_iff)
    then show ?thesis
      using assms(2) by (simp add: power_int_minus field_simps)
  qed
  from dbl_round_val_le [OF assms(1,2) x _ assms(5) _ bound1] assms(4,6)
  have v1: "dbl_val m1 e1 \<le> real_of_int a * 2 powi (- int k)"
    by simp
  have "real_of_int 0 * 2 powi 0 \<le> real_of_int u / real_of_int v"
    using assms(1,2) by simp
  from dbl_round_val_ge [OF assms(1,2) x _ _ _ this] have m1: "0 \<le> m1"
    by simp
  from assms(2,3) x have y: "int_of_dbl (dbl_scaled (m1 * 7036874417766400) (e1 - 46)) = Inr p"
    by (simp add: percent_def int_truediv_def hundred dbl_mul_def)
  then obtain m2 e2 where s: "dbl_scaled (m1 * 7036874417766400) (e1 - 46) = Finite m2 e2"
    by (cases "dbl_scaled (m1 * 7036874417766400) (e1 - 46)") (simp_all add: int_of_dbl_def)
  have prod: "real_of_int (m1 * 7036874417766400) * 2 powi (e1 - 46) = 100 * dbl_val m1 e1"
    by (simp add: dbl_val_def power_int_diff)
  have bound2: "real_of_int (m1 * 7036874417766400) * 2 powi (e1 - 46)
      \<le> real_of_int (100 * a) * 2 powi (- int k)"
    using v1 prod by simp
  have v2: "dbl_val m2 e2 \<le> real_of_int (100 * a) * 2 powi (- int k)" and m2: "0 \<le> m2"
  proof -
    show "dbl_val m2 e2 \<le> real_of_int (100 * a) * 2 powi (- int k)"
    proof (cases "m1 = 0")
      case True
      with s have "m2 = 0" by (simp add: dbl_scaled_zero)
      then show ?thesis using assms(4) by (simp add: dbl_val_def)
    next
      case False
      with m1 have "0 < m1 * 7036874417766400" by simp
      from dbl_scaled_val_le [OF this s _ assms(8) _ bound2] assms(4,6)
      show ?thesis by simp
    qed
    show "0 \<le> m2"
    proof (cases "m1 = 0")
      case True
      with s show ?thesis by (simp add: dbl_scaled_zero)
    next
      case False
      with m1 have pos: "0 < m1 * 7036874417766400" by simp
      have "real_of_int 0 * 2 powi 0 \<le> real_of_int (m1 * 7036874417766400) * 2 powi (e1 - 46)"
        using m1 by simp
      from dbl_scaled_val_ge [OF pos s _ _ _ this] show ?thesis by simp
    qed
  qed
  from y s int_of_dbl_floor [OF m2, of e2] have "p = \<lfloor>dbl_val m2 e2\<rfloor>"
    by simp
  also have "\<dots> \<le> \<lfloor>real_of_int (100 * a) * 2 powi (- int k)\<rfloor>"
    using v2 by (rule floor_mono)
  also have "real_of_int (100 * a) * 2 powi (- int k) = real_of_int (100 * a) / real_of_int (2 ^ k)"
    by (simp add: power_int_minus field_simps)
  also have "\<lfloor>real_of_int (100 * a) / real_of_int (2 ^ k)\<rfloor> = 100 * a div 2 ^ k"
    by (simp only: floor_divide_of_int_eq)
  finally show ?thesis .
qed

lemma percent_pow2:
  assumes "0 \<le> u" "100 * u < 2 ^ 53" "k \<le> 1000"
  shows "percent u (2 ^ k) = Inr (100 * u div 2 ^ k)"
proof (cases "u = 0")
  case True
  then show ?thesis
    using percent_zero [of "2 ^ k"] by simp
next
  case False
  with assms(1) have u: "0 < u" by simp
  have v: "(0::int) < 2 ^ k" by simp
  have small: "u < 2 ^ 53" using assms(2) u by linarith
  have "u * 1 \<le> 2 ^ 53 * (2 ^ k :: int)"
    using small by (intro mult_mono) simp_all
  then have "u \<le> 2 ^ 53 * (2 ^ k :: int)"
    by simp
  from percent_defined [OF assms(1) v this] obtain p where p: "percent u (2 ^ k) = Inr p"
    by auto
  define c where "c = 100 * u div 2 ^ k"
  have c0: "0 \<le> c"
    using u by (simp add: c_def pos_imp_zdiv_nonneg_iff)
  have "100 * u = c * 2 ^ k + 100 * u mod 2 ^ k"
    unfolding c_def by (simp only: div_mult_mod_eq)
  moreover have "0 \<le> 100 * u mod (2 ^ k :: int)"
    by (rule pos_mod_sign) simp
  ultimately have "c * 2 ^ k \<le> 100 * u"
    by linarith
  moreover have "c * 1 \<le> c * 2 ^ k"
    using c0 by (intro mult_left_mono) simp_all
  ultimately have c1: "c < 2 ^ 53" and c2: "c * 2 ^ k \<le> 100 * u"
    using assms(2) by simp_all
  have k: "k \<le> 1074" using assms(3) by simp
  have e: "u * 2 ^ k \<le> u * 2 ^ k" by simp
  from percent_ge [OF u v p u small k e c0 c1 c2] have lo: "c \<le> p" .
  from percent_le [OF u v p u small k e assms(2)] have hi: "p \<le> c"
    by (simp add: c_def)
  from lo hi p show ?thesis by (simp add: c_def)
qed

section \<open>The threshold under an integer ceiling\<close>

lemma rearm_int:
  "MAX_VRAM_USAGE g = PyInt c \<Longrightarrow>
   rearm g (PyInt t) u = PyInt (if u < t - THRESHOLD \<and> c \<le> t then t - THRESHOLD else t)"
  by (simp add: rearm_def num_less_def num_le_def num_sub_def)

lemma tick_int:
  assumes "MAX_VRAM_USAGE g = PyInt c"
    and "tick g (PyInt t) env = (evs, Polling T')"
  shows "\<exists>n. usage_query env = Returned n \<and>
     T' = PyInt (let t1 = (if int n < t - THRESHOLD \<and> c \<le> t then t - THRESHOLD else t)
                 in if t1 + THRESHOLD < int n then t1 + THRESHOLD else t1)"
  using assms
  by (auto simp: tick_def get_vram_usage_def get_temp_def send_vram_warning_def rearm_int
      num_less_def num_add_def Let_def
      split: query.splits sum.splits notify_result.splits if_splits)

lemma tick_grid:
  assumes "MAX_VRAM_USAGE g = PyInt c"
    and "tick g (PyInt (c - 20 + int k * THRESHOLD)) env = (evs, Polling T')"
  shows "\<exists>k'. T' = PyInt (c - 20 + int k' * THRESHOLD)"
proof -
  from tick_int [OF assms] obtain n where
    T': "T' = PyInt (let t1 = (if int n < (c - 20 + int k * THRESHOLD) - THRESHOLD \<and> c \<le> c - 20 + int k * THRESHOLD
                 then (c - 20 + int k * THRESHOLD) - THRESHOLD else c - 20 + int k * THRESHOLD)
                 in if t1 + THRESHOLD < int n then t1 + THRESHOLD else t1)"
    by blast
  show ?thesis
  proof (cases k)
    case 0
    then have "\<not> c \<le> c - 20 + int k * THRESHOLD" by simp
    with T' have "T' = PyInt (c - 20 + int 0 * THRESHOLD) \<or> T' = PyInt (c - 20 + int 1 * THRESHOLD)"
      using 0 by (simp add: Let_def split: if_splits)
    then show ?thesis by blast
  next
    case (Suc j)
    have a: "c - 20 + int k * THRESHOLD - THRESHOLD = c - 20 + int j * THRESHOLD"
      using Suc by (simp add: algebra_simps)
    have b: "c - 20 + int k * THRESHOLD + THRESHOLD = c - 20 + int (Suc k) * THRESHOLD"
      by (simp add: algebra_simps)
    from T' have "T' = PyInt (c - 20 + int j * THRESHOLD) \<or> T' = PyInt (c - 20 + int k * THRESHOLD)
       \<or> T' = PyInt (c - 20 + int (Suc k) * THRESHOLD)"
      unfolding Let_def a b using Suc by (auto simp: algebra_simps split: if_splits)
    then show ?thesis by blast
  qed
qed

lemma loop_grid:
  assumes "MAX_VRAM_USAGE g = PyInt c"
  shows "monitoring_loop g (PyInt (c - 20 + int k * THRESHOLD)) envs = (tr, Polling T)
    \<Longrightarrow> \<exists>k'. T = PyInt (c - 20 + int k' * THRESHOLD)"
proof (induction envs arbitrary: k tr)
  case Nil
  then show ?case by auto
next
  case (Cons env envs)
  obtain evs out where tk: "tick g (PyInt (c - 20 + int k * THRESHOLD)) env = (evs, out)"
    by (cases "tick g (PyInt (c - 20 + int k * THRESHOLD)) env")
  show ?case
  proof (cases out)
    case (Stopped s)
    with Cons.prems tk show ?thesis by simp
  next
    case (Polling T1)
    with tk tick_grid [OF assms] obtain k1 where T1: "T1 = PyInt (c - 20 + int k1 * THRESHOLD)"
      by blast
    obtain tr1 out1 where lp: "monitoring_loop g (PyInt (c - 20 + int k1 * THRESHOLD)) envs = (tr1, out1)"
      by (cases "monitoring_loop g (PyInt (c - 20 + int k1 * THRESHOLD)) envs")
    with Cons.prems tk Polling T1 have "out1 = Polling T" by simp
    with lp Cons.IH show ?thesis by blast
  qed
qed

lemma start_grid:
  assumes "MAX_VRAM_USAGE g = PyInt c" and "start_monitoring g envs = (tr, Polling T)"
  shows "\<exists>k. T = PyInt (c - 20 + int k * THRESHOLD)"
proof -
  have "num_sub (MAX_VRAM_USAGE g) 20 = PyInt (c - 20 + int 0 * THRESHOLD)"
    using assms(1) by (simp add: num_sub_def)
  with assms(2) loop_grid [OF assms(1), of 0 envs tr T] show ?thesis
    by (simp add: start_monitoring_def)
qed

text \<open>What a tick can warn about, and which ticks a run is made of.\<close>

lemma tick_warnings:
  assumes "tick g (PyInt t) env = (evs, out)" and "e \<in> set (warnings evs)"
  shows "\<exists>n p. usage_query env = Returned n
      \<and> num_less (num_add (rearm g (PyInt t) (int n)) THRESHOLD) (PyInt (int n))
      \<and> percent (int n) (VRAM_TOTAL g) = Inr p
      \<and> (e = Print (''Warning! '' @ warning_message (int n) (VRAM_TOTAL g) p)
         \<or> e = NotifySend (warning_message (int n) (VRAM_TOTAL g) p))"
  using assms
  by (auto simp: tick_def get_vram_usage_def get_temp_def send_vram_warning_def
      log_mess_def log_err_def VERBOSITY_LEVEL_def warnings_def is_warning_def Let_def
      split: query.splits sum.splits notify_result.splits if_splits)

lemma loop_ticks:
  assumes "MAX_VRAM_USAGE g = PyInt c"
  shows "monitoring_loop g (PyInt (c - 20 + int k * THRESHOLD)) envs = (tr, out)
    \<Longrightarrow> evs \<in> set tr
    \<Longrightarrow> \<exists>k' env out'. tick g (PyInt (c - 20 + int k' * THRESHOLD)) env = (evs, out')"
proof (induction envs arbitrary: k tr)
  case Nil
  then show ?case by simp
next
  case (Cons env envs)
  obtain evs0 out0 where tk: "tick g (PyInt (c - 20 + int k * THRESHOLD)) env = (evs0, out0)"
    by (cases "tick g (PyInt (c - 20 + int k * THRESHOLD)) env")
  show ?case
  proof (cases out0)
    case (Stopped s)
    with Cons.prems tk have "evs = evs0" by auto
    with tk show ?thesis by blast
  next
    case (Polling T1)
    with tk tick_grid [OF assms] obtain k1 where T1: "T1 = PyInt (c - 20 + int k1 * THRESHOLD)"
      by blast
    obtain tr1 out1 where lp: "monitoring_loop g (PyInt (c - 20 + int k1 * THRESHOLD)) envs = (tr1, out1)"
      by (cases "monitoring_loop g (PyInt (c - 20 + int k1 * THRESHOLD)) envs")
    with Cons.prems tk Polling T1 have o1: "out1 = out" and "evs = evs0 \<or> evs \<in> set tr1"
      by auto
    from this(2) show ?thesis
    proof
      assume "evs = evs0"
      with tk show ?thesis by blast
    next
      assume "evs \<in> set tr1"
      with lp o1 Cons.IH show ?thesis by blast
    qed
  qed
qed

lemma static_tick:
  assumes "tick defaults (PyInt (3800 - 20 + int k * THRESHOLD)) env = (evs, out)"
    and "e \<in> set (warnings evs)"
  shows "\<exists>u p. (e = Print (''Warning! '' @ warning_message u 2048 p)
                \<or> e = NotifySend (warning_message u 2048 p)) \<and> 100 < p"
proof -
  have mx: "MAX_VRAM_USAGE defaults = PyInt 3800" and vt: "VRAM_TOTAL defaults = 2048"
    by (simp_all add: defaults_def)
  from tick_warnings [OF assms] obtain n p where
    fire: "num_less (num_add (rearm defaults (PyInt (3800 - 20 + int k * THRESHOLD)) (int n)) THRESHOLD)
             (PyInt (int n))"
    and pc: "percent (int n) 2048 = Inr p"
    and e: "e = Print (''Warning! '' @ warning_message (int n) 2048 p)
         \<or> e = NotifySend (warning_message (int n) 2048 p)"
    unfolding vt by blast
  from fire have "3881 \<le> int n"
    by (cases k) (simp_all add: rearm_int [OF mx] num_less_def num_add_def THRESHOLD_def
        split: if_splits)
  then have "189 \<le> p" using pc by (rule percent_2048)
  with e show ?thesis by force
qed

lemma static_run:
  "main False senv [\<lparr>usage_query = Returned 3900, temp_query = Returned 50, notify = Delivered\<rparr>]
    = ([Stdout WARN 0 NoAutoWarning],
       [[Stdout LOG 0 (UsageLine 3900 50),
         Print ''Warning! VRAM usage critical! 3900/2048Mib, (190%)'',
         NotifySend ''VRAM usage critical! 3900/2048Mib, (190%)'', Sleep WAITTIME]],
       Polling (PyInt 3880))"
  by (simp add: main_def start_monitoring_def io_defs defaults_def THRESHOLD_def
      percent_3900_2048 message_3900)

section \<open>Rounding: canonical results and monotone addition\<close>

lemma round_pos_parts:
  assumes "0 < n" "0 < d" "round_pos n d = (m, e)"
  shows "0 \<le> m" "m < 2 ^ 53" "- 1074 \<le> e" "- 1074 < e \<longrightarrow> 2 ^ 52 \<le> m"
proof -
  define e0 where "e0 = max (ilog2 n d - 52) (- 1074)"
  define m0 where "m0 = (if 0 \<le> e0 then rne n (d * 2 ^ nat e0) else rne (n * 2 ^ nat (- e0)) d)"
  define q where "q = real_of_int n / real_of_int d"
  have rp: "round_pos n d = (if m0 = 2 ^ 53 then (2 ^ 52, e0 + 1) else (m0, e0))"
    unfolding round_pos_def Let_def e0_def [symmetric] m0_def [symmetric] ..
  have pe: "0 < (2::real) powi e0" by simp
  have qpos: "0 < q" using assms(1,2) by (simp add: q_def)
  have "real_of_int 0 \<le> q / 2 powi e0"
    using qpos pe by simp
  then have m0_nonneg: "0 \<le> m0"
    unfolding m0_def q_def by (rule mantissa_ge [OF assms(2)])
  have "q < 2 powi (ilog2 n d + 1)"
    unfolding q_def by (rule ilog2_bounds(2) [OF assms(1,2)])
  also have "\<dots> \<le> 2 powi (e0 + 53)"
    by (intro power_int_increasing) (simp_all add: e0_def)
  also have "\<dots> = real_of_int (2 ^ 53) * 2 powi e0"
    by (simp add: power_int_add)
  finally have "q / 2 powi e0 \<le> real_of_int (2 ^ 53)"
    using pe by (simp add: pos_divide_le_eq less_imp_le)
  then have m0_le: "m0 \<le> 2 ^ 53"
    unfolding m0_def q_def by (rule mantissa_le [OF assms(2)])
  have e0_ge: "- 1074 \<le> e0" by (simp add: e0_def)
  have normal: "2 ^ 52 \<le> m0" if "- 1074 < e0"
  proof -
    from that have e: "e0 = ilog2 n d - 52"
      by (simp add: e0_def max_def split: if_splits)
    have "2 powi (ilog2 n d) \<le> q"
      unfolding q_def by (rule ilog2_bounds(1) [OF assms(1,2)])
    then have "2 powi (ilog2 n d) / 2 powi e0 \<le> q / 2 powi e0"
      by (rule divide_right_mono) simp
    moreover have "2 powi (ilog2 n d) / 2 powi e0 = real_of_int (2 ^ 52)"
      by (simp add: e power_int_diff [symmetric])
    ultimately have "real_of_int (2 ^ 52) \<le> q / 2 powi e0"
      by simp
    then show ?thesis
      unfolding m0_def q_def by (rule mantissa_ge [OF assms(2)])
  qed
  show "0 \<le> m" "m < 2 ^ 53" "- 1074 \<le> e" "- 1074 < e \<longrightarrow> 2 ^ 52 \<le> m"
  proof -
    consider (up) "m0 = 2 ^ 53" "m = 2 ^ 52" "e = e0 + 1" | (same) "m0 \<noteq> 2 ^ 53" "m = m0" "e = e0"
      using assms(3) rp by (cases "m0 = 2 ^ 53") simp_all
    then have "0 \<le> m \<and> m < 2 ^ 53 \<and> - 1074 \<le> e \<and> (- 1074 < e \<longrightarrow> 2 ^ 52 \<le> m)"
    proof cases
      case up
      then show ?thesis using e0_ge by simp
    next
      case same
      then show ?thesis using m0_nonneg m0_le e0_ge normal by auto
    qed
    then show "0 \<le> m" "m < 2 ^ 53" "- 1074 \<le> e" "- 1074 < e \<longrightarrow> 2 ^ 52 \<le> m"
      by simp_all
  qed
qed

lemma dbl_round_canonical:
  assumes "0 < d" "dbl_round n d = Finite m e"
  shows "\<bar>m\<bar> < 2 ^ 53 \<and> - 1074 \<le> e \<and> e \<le> 971"
proof (cases "n = 0")
  case True
  with assms(2) show ?thesis by (simp add: dbl_round_def)
next
  case False
  then have n: "0 < \<bar>n\<bar>" by simp
  obtain m' e' where r: "round_pos \<bar>n\<bar> d = (m', e')"
    by (cases "round_pos \<bar>n\<bar> d")
  note p = round_pos_parts [OF n assms(1) r]
  from assms(2) False r have fin: "\<not> 971 < e'"
    and eq: "Finite m e = (if m' = 0 then Finite 0 0 else Finite (sgn n * m') e')"
    by (simp_all add: dbl_round_def split: if_splits)
  from eq consider "m = 0" "e = 0" | "m = sgn n * m'" "e = e'"
    by (auto split: if_splits)
  then show ?thesis
  proof cases
    case 1
    then show ?thesis by simp
  next
    case 2
    have "\<bar>sgn n * m'\<bar> = m'"
      using False p(1) by (simp add: abs_mult)
    with 2 p fin show ?thesis by simp
  qed
qed

lemma dbl_round_at_least:
  assumes "0 < d" "\<bar>a\<bar> < 2 ^ 53" "- 1074 \<le> j" "j \<le> 971"
    and "real_of_int a * 2 powi j \<le> real_of_int n / real_of_int d"
  shows "dbl_at_least (real_of_int a * 2 powi j) (dbl_round n d)"
proof -
  have dpos: "0 < real_of_int d" using assms(1) by simp
  have pj: "0 < (2::real) powi j" by simp
  consider (zero) "n = 0" | (pos) "0 < n" | (neg) "n < 0" by linarith
  then show ?thesis
  proof cases
    case zero
    with assms(5) show ?thesis
      by (simp add: dbl_round_zero dbl_at_least_def dbl_val_def)
  next
    case pos
    obtain m' e' where r: "round_pos n d = (m', e')"
      by (cases "round_pos n d")
    show ?thesis
    proof (cases "971 < e'")
      case True
      with pos r show ?thesis by (simp add: dbl_round_def dbl_at_least_def)
    next
      case False
      with pos r have "dbl_round n d = (if m' = 0 then Finite 0 0 else Finite (sgn n * m') e')"
        by (simp add: dbl_round_def)
      then obtain m e where fin: "dbl_round n d = Finite m e"
        by (cases "m' = 0") simp_all
      have "real_of_int 0 * 2 powi 0 \<le> real_of_int n / real_of_int d"
        using pos dpos by simp
      from dbl_round_val_ge [OF pos assms(1) fin _ _ _ this] have m0: "0 \<le> m"
        by simp
      have "real_of_int a * 2 powi j \<le> dbl_val m e"
      proof (cases "0 \<le> a")
        case True
        from dbl_round_val_ge [OF pos assms(1) fin True _ assms(3,5)] assms(2)
        show ?thesis by simp
      next
        case False
        then have "real_of_int a * 2 powi j \<le> 0"
          using pj by (simp add: mult_le_0_iff)
        also have "0 \<le> dbl_val m e"
          using m0 by (simp add: dbl_val_nonneg)
        finally show ?thesis .
      qed
      with fin show ?thesis by (simp add: dbl_at_least_def)
    qed
  next
    case neg
    then have n: "0 < \<bar>n\<bar>" by simp
    have "real_of_int n / real_of_int d < 0"
      using neg dpos by (simp add: divide_neg_pos)
    with assms(5) have "real_of_int a * 2 powi j < 0" by linarith
    then have a: "a < 0"
      using pj by (simp add: mult_less_0_iff)
    have b: "real_of_int \<bar>n\<bar> / real_of_int d \<le> real_of_int \<bar>a\<bar> * 2 powi j"
    proof -
      have "real_of_int \<bar>n\<bar> / real_of_int d = - (real_of_int n / real_of_int d)"
        using neg by simp
      moreover have "real_of_int \<bar>a\<bar> * 2 powi j = - (real_of_int a * 2 powi j)"
        using a by simp
      ultimately show ?thesis using assms(5) by linarith
    qed
    obtain m' e' where r: "round_pos \<bar>n\<bar> d = (m', e')"
      by (cases "round_pos \<bar>n\<bar> d")
    note p = round_pos_parts [OF n assms(1) r]
    from round_pos_val_le [OF n assms(1) _ _ assms(3) b] assms(2) r
    have le: "dbl_val m' e' \<le> real_of_int \<bar>a\<bar> * 2 powi j"
      by simp
    have e': "e' \<le> 971"
    proof (cases "- 1074 < e'")
      case True
      with p(4) have "real_of_int (2 ^ 52) \<le> real_of_int m'"
        by (simp only: of_int_le_iff)
      then have "real_of_int (2 ^ 52) * 2 powi e' \<le> dbl_val m' e'"
        unfolding dbl_val_def by (rule mult_right_mono) simp
      also note le
      also have "real_of_int \<bar>a\<bar> * 2 powi j < real_of_int (2 ^ 53) * 2 powi j"
        using assms(2) by (intro mult_strict_right_mono) simp_all
      finally have lt: "(2::real) powi (52 + e') < 2 powi (53 + j)"
        by (simp add: power_int_add)
      have "52 + e' < 53 + j"
      proof (rule ccontr)
        assume "\<not> 52 + e' < 53 + j"
        then have "(2::real) powi (53 + j) \<le> 2 powi (52 + e')"
          by (intro power_int_increasing) simp_all
        with lt show False by simp
      qed
      with assms(4) show ?thesis by simp
    next
      case False
      then show ?thesis by simp
    qed
    from neg r e' have dr: "dbl_round n d = (if m' = 0 then Finite 0 0 else Finite (- m') e')"
      by (simp add: dbl_round_def)
    show ?thesis
    proof (cases "m' = 0")
      case True
      with dr have "dbl_round n d = Finite 0 0" by simp
      moreover have "real_of_int a * 2 powi j \<le> 0"
        using a pj by (simp add: mult_le_0_iff)
      ultimately show ?thesis by (simp add: dbl_at_least_def dbl_val_def)
    next
      case False
      with dr have "dbl_round n d = Finite (- m') e'" by simp
      moreover have "real_of_int a * 2 powi j \<le> dbl_val (- m') e'"
      proof -
        have "dbl_val (- m') e' = - dbl_val m' e'"
          by (simp add: dbl_val_def)
        moreover have "real_of_int \<bar>a\<bar> * 2 powi j = - (real_of_int a * 2 powi j)"
          using a by simp
        ultimately show ?thesis using le by linarith
      qed
      ultimately show ?thesis by (simp add: dbl_at_least_def)
    qed
  qed
qed

lemma dbl_scaled_at_least:
  assumes "\<bar>a\<bar> < 2 ^ 53" "- 1074 \<le> j" "j \<le> 971"
    and "real_of_int a * 2 powi j \<le> real_of_int M * 2 powi E"
  shows "dbl_at_least (real_of_int a * 2 powi j) (dbl_scaled M E)"
proof (cases "0 \<le> E")
  case True
  have "real_of_int a * 2 powi j \<le> real_of_int (M * 2 ^ nat E) / real_of_int 1"
    using assms(4) by (simp add: powi_nonneg [OF True])
  then have "dbl_at_least (real_of_int a * 2 powi j) (dbl_round (M * 2 ^ nat E) 1)"
    using assms(1,2,3) by (intro dbl_round_at_least) simp_all
  then show ?thesis using True by (simp add: dbl_scaled_def)
next
  case False
  have "real_of_int a * 2 powi j \<le> real_of_int M / real_of_int (2 ^ nat (- E))"
    using assms(4) False by (simp add: powi_neg)
  then have "dbl_at_least (real_of_int a * 2 powi j) (dbl_round M (2 ^ nat (- E)))"
    using assms(1,2,3) by (intro dbl_round_at_least) simp_all
  then show ?thesis using False by (simp add: dbl_scaled_def)
qed

lemma aligned_val:
  "real_of_int (m * 2 ^ nat (e1 - min e1 e2)) * 2 powi (min e1 e2) = dbl_val m e1"
proof -
  have "(2::real) ^ nat (e1 - min e1 e2) = 2 powi (e1 - min e1 e2)"
    by (simp add: power_int_def)
  then have "real_of_int (m * 2 ^ nat (e1 - min e1 e2)) * 2 powi (min e1 e2)
      = real_of_int m * (2 powi (e1 - min e1 e2) * 2 powi (min e1 e2))"
    by simp
  also have "2 powi (e1 - min e1 e2) * (2::real) powi (min e1 e2) = 2 powi e1"
    by (simp add: power_int_add [symmetric])
  finally show ?thesis by (simp add: dbl_val_def)
qed

lemma aligned_val2:
  "real_of_int (m * 2 ^ nat (e2 - min e1 e2)) * 2 powi (min e1 e2) = dbl_val m e2"
  using aligned_val [of m e2 e1] by (simp add: min.commute)

lemma dbl_add_at_least:
  assumes "\<bar>a\<bar> < 2 ^ 53" "- 1074 \<le> j" "j \<le> 971"
    and "real_of_int a * 2 powi j \<le> dbl_val m1 e1 + dbl_val m2 e2"
  shows "dbl_at_least (real_of_int a * 2 powi j) (dbl_add (Finite m1 e1) (Finite m2 e2))"
proof -
  define e where "e = min e1 e2"
  define S where "S = m1 * 2 ^ nat (e1 - e) + m2 * 2 ^ nat (e2 - e)"
  have "real_of_int S * 2 powi e
      = real_of_int (m1 * 2 ^ nat (e1 - e)) * 2 powi e + real_of_int (m2 * 2 ^ nat (e2 - e)) * 2 powi e"
    by (simp add: S_def algebra_simps)
  also have "\<dots> = dbl_val m1 e1 + dbl_val m2 e2"
    unfolding e_def by (simp only: aligned_val aligned_val2)
  finally have "real_of_int a * 2 powi j \<le> real_of_int S * 2 powi e"
    using assms(4) by simp
  from dbl_scaled_at_least [OF assms(1,2,3) this]
  show ?thesis by (simp add: dbl_add_def Let_def S_def e_def)
qed

lemma dbl_le_val:
  "dbl_le (Finite m1 e1) (Finite m2 e2) \<longleftrightarrow> dbl_val m1 e1 \<le> dbl_val m2 e2"
proof -
  define e where "e = min e1 e2"
  have pe: "0 < (2::real) powi e" by simp
  have "dbl_le (Finite m1 e1) (Finite m2 e2)
      \<longleftrightarrow> m1 * 2 ^ nat (e1 - e) \<le> m2 * 2 ^ nat (e2 - e)"
    by (simp add: dbl_le_def Let_def e_def)
  also have "\<dots> \<longleftrightarrow> real_of_int (m1 * 2 ^ nat (e1 - e)) \<le> real_of_int (m2 * 2 ^ nat (e2 - e))"
    by (simp only: of_int_le_iff)
  also have "\<dots> \<longleftrightarrow> real_of_int (m1 * 2 ^ nat (e1 - e)) * 2 powi e
      \<le> real_of_int (m2 * 2 ^ nat (e2 - e)) * 2 powi e"
    using pe by (simp only: mult_le_cancel_right_pos)
  also have "\<dots> \<longleftrightarrow> dbl_val m1 e1 \<le> dbl_val m2 e2"
    unfolding e_def by (simp only: aligned_val aligned_val2)
  finally show ?thesis .
qed

lemma minus_hundred: "dbl_round (- 100) 1 = Finite (- 7036874417766400) (- 46)"
  by code_simp

lemma minus_twenty: "dbl_round (- 20) 1 = Finite (- 5629499534213120) (- 48)"
  by code_simp

lemma val_hundred: "dbl_val 7036874417766400 (- 46) = 100"
  by (simp add: dbl_val_def power_int_minus)

lemma val_minus_hundred: "dbl_val (- 7036874417766400) (- 46) = - 100"
  by (simp add: dbl_val_def power_int_minus)

lemma val_minus_twenty: "dbl_val (- 5629499534213120) (- 48) = - 20"
  by (simp add: dbl_val_def power_int_minus)

lemma dbl_add_canonical:
  assumes "dbl_add (Finite m1 e1) (Finite m2 e2) = Finite a j"
  shows "\<bar>a\<bar> < 2 ^ 53 \<and> - 1074 \<le> j \<and> j \<le> 971"
proof -
  define e where "e = min e1 e2"
  define S where "S = m1 * 2 ^ nat (e1 - e) + m2 * 2 ^ nat (e2 - e)"
  from assms have s: "dbl_scaled S e = Finite a j"
    by (simp add: dbl_add_def Let_def S_def e_def)
  show ?thesis
  proof (cases "0 \<le> e")
    case True
    with s have "dbl_round (S * 2 ^ nat e) 1 = Finite a j"
      by (simp add: dbl_scaled_def)
    then show ?thesis by (intro dbl_round_canonical [of 1]) simp_all
  next
    case False
    with s have "dbl_round S (2 ^ nat (- e)) = Finite a j"
      by (simp add: dbl_scaled_def)
    then show ?thesis by (intro dbl_round_canonical [of "2 ^ nat (- e)"]) simp_all
  qed
qed

lemma dbl_less_val:
  "dbl_less (Finite m1 e1) (Finite m2 e2) \<longleftrightarrow> dbl_val m1 e1 < dbl_val m2 e2"
proof -
  define e where "e = min e1 e2"
  have pe: "0 < (2::real) powi e" by simp
  have "dbl_less (Finite m1 e1) (Finite m2 e2)
      \<longleftrightarrow> m1 * 2 ^ nat (e1 - e) < m2 * 2 ^ nat (e2 - e)"
    by (simp add: dbl_less_def Let_def e_def)
  also have "\<dots> \<longleftrightarrow> real_of_int (m1 * 2 ^ nat (e1 - e)) < real_of_int (m2 * 2 ^ nat (e2 - e))"
    by (simp only: of_int_less_iff)
  also have "\<dots> \<longleftrightarrow> real_of_int (m1 * 2 ^ nat (e1 - e)) * 2 powi e
      < real_of_int (m2 * 2 ^ nat (e2 - e)) * 2 powi e"
    using pe by (simp only: mult_less_cancel_right_pos)
  also have "\<dots> \<longleftrightarrow> dbl_val m1 e1 < dbl_val m2 e2"
    unfolding e_def by (simp only: aligned_val aligned_val2)
  finally show ?thesis .
qed

text \<open>When the fire check passes on a float threshold, the usage is above the exact sum.\<close>

lemma float_fire_sound:
  assumes "num_less (num_add (PyFloat (Finite m e)) THRESHOLD) (PyInt u)"
    and "\<bar>u\<bar> < 2 ^ 53"
  shows "dbl_val m e + real_of_int THRESHOLD < real_of_int u"
proof (rule ccontr)
  assume "\<not> dbl_val m e + real_of_int THRESHOLD < real_of_int u"
  then have "real_of_int u * 2 powi 0 \<le> dbl_val m e + dbl_val 7036874417766400 (- 46)"
    by (simp add: val_hundred THRESHOLD_def)
  with assms(2)
  have al: "dbl_at_least (real_of_int u * 2 powi 0)
      (dbl_add (Finite m e) (Finite 7036874417766400 (- 46)))"
    by (intro dbl_add_at_least) simp_all
  from assms(1) have ls: "dbl_less (dbl_add (Finite m e) (Finite 7036874417766400 (- 46))) (Finite u 0)"
    by (simp add: num_less_def num_add_def THRESHOLD_def hundred)
  show False
  proof (cases "dbl_add (Finite m e) (Finite 7036874417766400 (- 46))")
    case (Finite a j)
    with al ls show ?thesis
      by (simp add: dbl_at_least_def dbl_less_val dbl_val_def)
  next
    case PosInf
    with ls show ?thesis by (simp add: dbl_less_def)
  next
    case NegInf
    with al show ?thesis by (simp add: dbl_at_least_def)
  next
    case NaN
    with al show ?thesis by (simp add: dbl_at_least_def)
  qed
qed

section \<open>The threshold under any ceiling\<close>

lemma tick_threshold:
  assumes "tick g T env = (evs, Polling T')"
  shows "\<exists>n. usage_query env = Returned n \<and>
     T' = (let T1 = rearm g T (int n)
           in if num_less (num_add T1 THRESHOLD) (PyInt (int n))
              then num_add T1 THRESHOLD else T1)"
  using assms
  by (auto simp: tick_def get_vram_usage_def get_temp_def send_vram_warning_def Let_def
      split: query.splits sum.splits notify_result.splits if_splits)

lemma loop_invariant:
  assumes step: "\<And>T env evs T'. P T \<Longrightarrow> tick g T env = (evs, Polling T') \<Longrightarrow> P T'"
  shows "P T \<Longrightarrow> monitoring_loop g T envs = (tr, Polling T') \<Longrightarrow> P T'"
proof (induction envs arbitrary: T tr)
  case Nil
  then show ?case by simp
next
  case (Cons env envs)
  obtain evs out where tk: "tick g T env = (evs, out)"
    by (cases "tick g T env")
  show ?case
  proof (cases out)
    case (Stopped s)
    with Cons.prems tk show ?thesis by simp
  next
    case (Polling T1)
    with tk step Cons.prems(1) have p1: "P T1" by blast
    obtain tr1 out1 where lp: "monitoring_loop g T1 envs = (tr1, out1)"
      by (cases "monitoring_loop g T1 envs")
    with Cons.prems(2) tk Polling have "out1 = Polling T'" by simp
    with lp p1 Cons.IH show ?thesis by blast
  qed
qed

lemma int_floor_step:
  assumes "MAX_VRAM_USAGE g = PyInt c"
    and "\<exists>t. T = PyInt t \<and> c - THRESHOLD \<le> t"
    and "tick g T env = (evs, Polling T')"
  shows "\<exists>t. T' = PyInt t \<and> c - THRESHOLD \<le> t"
proof -
  from assms(2) obtain t where T: "T = PyInt t" and t: "c - THRESHOLD \<le> t" by blast
  from tick_int [OF assms(1) assms(3) [unfolded T]] obtain n where
    "T' = PyInt (let t1 = (if int n < t - THRESHOLD \<and> c \<le> t then t - THRESHOLD else t)
                 in if t1 + THRESHOLD < int n then t1 + THRESHOLD else t1)"
    by blast
  with t show ?thesis
    by (auto simp: Let_def THRESHOLD_def)
qed

lemma float_floor_step:
  assumes M: "MAX_VRAM_USAGE g = PyFloat (Finite mM eM)"
    and R: "dbl_val a j = dbl_val mM eM - 100"
    and can: "\<bar>a\<bar> < 2 ^ 53" "- 1074 \<le> j" "j \<le> 971"
    and P: "\<exists>dT. T = PyFloat dT \<and> dbl_at_least (dbl_val a j) dT"
    and tk: "tick g T env = (evs, Polling T')"
  shows "\<exists>dT. T' = PyFloat dT \<and> dbl_at_least (dbl_val a j) dT"
proof -
  have add: "dbl_at_least (dbl_val a j) (dbl_add d (Finite mc ec))"
    if "dbl_at_least (dbl_val a j) d" and "\<And>m e. d = Finite m e \<Longrightarrow> dbl_val a j \<le> dbl_val m e + dbl_val mc ec"
    for d mc ec
  proof (cases d)
    case (Finite m e)
    from that(2) [OF Finite] have "real_of_int a * 2 powi j \<le> dbl_val m e + dbl_val mc ec"
      by (simp add: dbl_val_def)
    from dbl_add_at_least [OF can this] Finite show ?thesis
      by (simp add: dbl_val_def)
  next
    case PosInf
    then show ?thesis by (simp add: dbl_add_def dbl_at_least_def)
  next
    case NegInf
    with that(1) show ?thesis by (simp add: dbl_at_least_def)
  next
    case NaN
    with that(1) show ?thesis by (simp add: dbl_at_least_def)
  qed
  from P obtain dT where T: "T = PyFloat dT" and dT: "dbl_at_least (dbl_val a j) dT" by blast
  from tick_threshold [OF tk] obtain n where
    T': "T' = (let T1 = rearm g T (int n)
           in if num_less (num_add T1 THRESHOLD) (PyInt (int n))
              then num_add T1 THRESHOLD else T1)"
    by blast
  have r: "\<exists>d1. rearm g T (int n) = PyFloat d1 \<and> dbl_at_least (dbl_val a j) d1"
  proof (cases "num_less (PyInt (int n)) (num_sub T THRESHOLD) \<and> num_le (MAX_VRAM_USAGE g) T")
    case False
    with T dT show ?thesis by (auto simp: rearm_def)
  next
    case True
    then have le: "dbl_le (Finite mM eM) dT"
      by (simp add: M T num_le_def)
    have "dbl_at_least (dbl_val a j) (dbl_add dT (Finite (- 7036874417766400) (- 46)))"
    proof (rule add [OF dT])
      fix m e assume "dT = Finite m e"
      with le have "dbl_val mM eM \<le> dbl_val m e" by (simp add: dbl_le_val)
      with R show "dbl_val a j \<le> dbl_val m e + dbl_val (- 7036874417766400) (- 46)"
        by (simp add: val_minus_hundred)
    qed
    with True T show ?thesis
      by (simp add: rearm_def num_sub_def THRESHOLD_def minus_hundred)
  qed
  then obtain d1 where T1: "rearm g T (int n) = PyFloat d1" and d1: "dbl_at_least (dbl_val a j) d1"
    by blast
  have "dbl_at_least (dbl_val a j) (dbl_add d1 (Finite 7036874417766400 (- 46)))"
  proof (rule add [OF d1])
    fix m e assume "d1 = Finite m e"
    with d1 have "dbl_val a j \<le> dbl_val m e" by (simp add: dbl_at_least_def)
    then show "dbl_val a j \<le> dbl_val m e + dbl_val 7036874417766400 (- 46)"
      by (simp add: val_hundred)
  qed
  with T' T1 d1 show ?thesis
    by (simp add: Let_def num_add_def THRESHOLD_def hundred)
qed

lemma floor_general:
  assumes v: "finite_val (MAX_VRAM_USAGE g) = Some v"
    and ex: "finite_val (num_sub (MAX_VRAM_USAGE g) THRESHOLD) = Some (v - real_of_int THRESHOLD)"
    and run: "start_monitoring g envs = (tr, Polling T)"
  shows "num_le (num_sub (MAX_VRAM_USAGE g) THRESHOLD) T"
proof (cases "MAX_VRAM_USAGE g")
  case (PyInt c)
  have "\<exists>t. num_sub (MAX_VRAM_USAGE g) 20 = PyInt t \<and> c - THRESHOLD \<le> t"
    by (simp add: PyInt num_sub_def THRESHOLD_def)
  moreover note run [unfolded start_monitoring_def]
  ultimately have "\<exists>t. T = PyInt t \<and> c - THRESHOLD \<le> t"
    by (rule loop_invariant [where P = "\<lambda>T. \<exists>t. T = PyInt t \<and> c - THRESHOLD \<le> t" and g = g,
          rotated]) (rule int_floor_step [OF PyInt])
  then show ?thesis
    by (auto simp: PyInt num_sub_def num_le_def)
next
  case (PyFloat dM)
  with v obtain mM eM where dM: "dM = Finite mM eM" and vM: "v = dbl_val mM eM"
    by (auto simp: finite_val_def split: dbl.splits)
  have M: "MAX_VRAM_USAGE g = PyFloat (Finite mM eM)"
    using PyFloat dM by simp
  have sub: "num_sub (MAX_VRAM_USAGE g) THRESHOLD
      = PyFloat (dbl_add (Finite mM eM) (Finite (- 7036874417766400) (- 46)))"
    by (simp add: M num_sub_def THRESHOLD_def minus_hundred)
  with ex obtain a j where
    aj: "dbl_add (Finite mM eM) (Finite (- 7036874417766400) (- 46)) = Finite a j"
    and R: "dbl_val a j = dbl_val mM eM - 100"
    by (auto simp: finite_val_def vM THRESHOLD_def split: dbl.splits)
  from dbl_add_canonical [OF aj] have can: "\<bar>a\<bar> < 2 ^ 53" "- 1074 \<le> j" "j \<le> 971"
    by simp_all
  have "real_of_int a * 2 powi j \<le> dbl_val mM eM + dbl_val (- 5629499534213120) (- 48)"
    using R by (simp add: val_minus_twenty dbl_val_def)
  from dbl_add_at_least [OF can this]
  have "\<exists>dT. num_sub (MAX_VRAM_USAGE g) 20 = PyFloat dT \<and> dbl_at_least (dbl_val a j) dT"
    by (simp add: M num_sub_def minus_twenty dbl_val_def)
  moreover note run [unfolded start_monitoring_def]
  ultimately have "\<exists>dT. T = PyFloat dT \<and> dbl_at_least (dbl_val a j) dT"
    by (rule loop_invariant [where P = "\<lambda>T. \<exists>dT. T = PyFloat dT \<and> dbl_at_least (dbl_val a j) dT"
          and g = g, rotated]) (rule float_floor_step [OF M R can])
  then obtain dT where T: "T = PyFloat dT" and dT: "dbl_at_least (dbl_val a j) dT"
    by blast
  from dT have "dbl_le (Finite a j) dT"
    by (cases dT) (simp_all add: dbl_at_least_def dbl_le_val, simp add: dbl_le_def)
  then show ?thesis
    by (simp add: sub aj T num_le_def)
qed

section \<open>The ceiling that auto-detection sets\<close>

text \<open>
  For a detected capacity from 112 to \<open>2 ^ 54\<close> MiB the ceiling \<^verbatim>\<open>VRAM_TOTAL * .9\<close> is a
  double between 100 and \<open>2 ^ 54\<close>, whose last bit is worth at most 4: the difference
  \<^verbatim>\<open>MAX_VRAM_USAGE - THRESHOLD\<close> is then computed exactly.
\<close>

lemma point9_value: "point9 = Finite 8106479329266893 (- 53)"
  by code_simp

lemma dbl_round_parts:
  assumes "0 < n" "0 < d" "dbl_round n d = Finite m e" "m \<noteq> 0"
  shows "0 < m \<and> m < 2 ^ 53 \<and> - 1074 \<le> e \<and> (- 1074 < e \<longrightarrow> 2 ^ 52 \<le> m)"
proof -
  obtain m' e' where r: "round_pos n d = (m', e')"
    by (cases "round_pos n d")
  note p = round_pos_parts [OF assms(1,2) r]
  from assms(1,3) r have "Finite m e = (if m' = 0 then Finite 0 0 else Finite m' e')"
    by (simp add: dbl_round_def split: if_splits)
  with assms(4) have "m = m'" "e = e'" "m' \<noteq> 0"
    by (auto split: if_splits)
  with p show ?thesis by simp
qed

lemma dbl_scaled_parts:
  assumes "0 < M" "dbl_scaled M E = Finite m e" "m \<noteq> 0"
  shows "0 < m \<and> m < 2 ^ 53 \<and> - 1074 \<le> e \<and> (- 1074 < e \<longrightarrow> 2 ^ 52 \<le> m)"
proof (cases "0 \<le> E")
  case True
  have "0 < M * 2 ^ nat E" using assms(1) by simp
  moreover have "(0::int) < 1" by simp
  moreover have "dbl_round (M * 2 ^ nat E) 1 = Finite m e"
    using assms(2) True by (simp add: dbl_scaled_def)
  ultimately show ?thesis using assms(3) by (rule dbl_round_parts)
next
  case False
  have "(0::int) < 2 ^ nat (- E)" by simp
  moreover have "dbl_round M (2 ^ nat (- E)) = Finite m e"
    using assms(2) False by (simp add: dbl_scaled_def)
  ultimately show ?thesis using assms(1,3) dbl_round_parts [of M "2 ^ nat (- E)" m e] by blast
qed

lemma minus_step_exact:
  assumes "0 \<le> m" "m < 2 ^ 53" "- 1074 \<le> e" "e \<le> 2" "100 \<le> dbl_val m e"
  shows "\<exists>a j. dbl_add (Finite m e) (Finite (- 7036874417766400) (- 46)) = Finite a j
      \<and> dbl_val a j = dbl_val m e - 100"
proof -
  define c where "c = m - 25 * 2 ^ nat (2 - e)"
  define e0 where "e0 = min e (- 46)"
  define S where "S = m * 2 ^ nat (e - e0) + (- 7036874417766400) * 2 ^ nat (- 46 - e0)"
  have pe: "0 < (2::real) powi e" by simp
  have pe0: "0 < (2::real) powi e0" by simp
  have "(2::real) ^ nat (2 - e) = 2 powi (2 - e)"
    using assms(4) by (simp add: power_int_def)
  then have "real_of_int (25 * 2 ^ nat (2 - e)) * 2 powi e = 25 * (2 powi (2 - e) * 2 powi e)"
    by simp
  also have "2 powi (2 - e) * (2::real) powi e = 2 powi 2"
    by (simp add: power_int_add [symmetric])
  finally have step: "real_of_int (25 * 2 ^ nat (2 - e)) * 2 powi e = 100"
    by simp
  have cval: "real_of_int c * 2 powi e = dbl_val m e - 100"
    unfolding c_def using step by (simp add: dbl_val_def algebra_simps)
  have c0: "0 \<le> c"
  proof (rule ccontr)
    assume "\<not> 0 \<le> c"
    then have "real_of_int c < 0" by simp
    then have "real_of_int c * 2 powi e < 0" using pe by (rule mult_neg_pos)
    with cval assms(5) show False by simp
  qed
  have "(0::int) \<le> 25 * 2 ^ nat (2 - e)" by simp
  then have "c \<le> m" unfolding c_def by linarith
  with assms(2) have c53: "c < 2 ^ 53" by linarith
  have "real_of_int S * 2 powi e0
      = real_of_int (m * 2 ^ nat (e - e0)) * 2 powi e0
        + real_of_int ((- 7036874417766400) * 2 ^ nat (- 46 - e0)) * 2 powi e0"
    by (simp add: S_def algebra_simps)
  also have "\<dots> = dbl_val m e + dbl_val (- 7036874417766400) (- 46)"
    unfolding e0_def by (simp only: aligned_val aligned_val2)
  finally have Sval: "real_of_int S * 2 powi e0 = real_of_int c * 2 powi e"
    using cval by (simp add: val_minus_hundred)
  have add: "dbl_add (Finite m e) (Finite (- 7036874417766400) (- 46)) = dbl_scaled S e0"
    by (simp add: dbl_add_def Let_def S_def e0_def)
  have S0: "0 \<le> S"
  proof (rule ccontr)
    assume "\<not> 0 \<le> S"
    then have "real_of_int S < 0" by simp
    then have "real_of_int S * 2 powi e0 < 0" using pe0 by (rule mult_neg_pos)
    moreover have "0 \<le> real_of_int c * 2 powi e" using c0 by simp
    ultimately show False using Sval by simp
  qed
  show ?thesis
  proof (cases "S = 0")
    case True
    with Sval cval have "dbl_val m e - 100 = 0" by simp
    with True add show ?thesis
      by (simp add: dbl_scaled_zero dbl_val_def)
  next
    case False
    with S0 have Sp: "0 < S" by simp
    have "real_of_int m * 2 powi e \<le> real_of_int (2 ^ 53) * 2 powi e"
      using assms(2) by (intro mult_right_mono) simp_all
    also have "\<dots> \<le> real_of_int (2 ^ 53) * 2 powi 2"
      using assms(4) by (intro mult_left_mono power_int_increasing) simp_all
    also have "\<dots> = 2 powi 55" by simp
    finally have "dbl_val m e \<le> 2 powi 55" by (simp add: dbl_val_def)
    with Sval cval have "real_of_int S * 2 powi e0 \<le> 2 powi 55" by simp
    then have "\<exists>a j. dbl_scaled S e0 = Finite a j"
      using S0 by (intro dbl_scaled_finite [of S e0 55]) simp_all
    then obtain a j where fin: "dbl_scaled S e0 = Finite a j" by blast
    have le1: "real_of_int c * 2 powi e \<le> real_of_int S * 2 powi e0"
      and le2: "real_of_int S * 2 powi e0 \<le> real_of_int c * 2 powi e"
      using Sval by simp_all
    from dbl_scaled_val_ge [OF Sp fin c0 c53 assms(3) le1]
    have "real_of_int c * 2 powi e \<le> dbl_val a j" by simp
    moreover from dbl_scaled_val_le [OF Sp fin c0 c53 assms(3) le2]
    have "dbl_val a j \<le> real_of_int c * 2 powi e" .
    ultimately have "dbl_val a j = dbl_val m e - 100" using cval by simp
    with add fin show ?thesis by simp
  qed
qed

lemma autodetect_ceiling:
  assumes "112 \<le> V" "V \<le> 2 ^ 54"
  shows "\<exists>mf ef m e. float_of_int V = Inr (Finite mf ef)
      \<and> dbl_mul (Finite mf ef) point9 = Finite m e
      \<and> 0 \<le> m \<and> m < 2 ^ 53 \<and> - 1074 \<le> e \<and> e \<le> 2 \<and> 100 \<le> dbl_val m e"
proof -
  have Vp: "0 < V" using assms(1) by simp
  have one: "(0::int) < 1" by simp
  have "real_of_int V \<le> real_of_int (2 ^ 54)"
    using assms(2) by (simp only: of_int_le_iff)
  then have Vle: "real_of_int V / real_of_int 1 \<le> 2 powi 54" by simp
  have "\<exists>m e. dbl_round V 1 = Finite m e"
    using Vp one Vle by (rule dbl_round_finite) simp_all
  then obtain mf ef where f: "dbl_round V 1 = Finite mf ef" by blast
  have "real_of_int 112 \<le> real_of_int V"
    using assms(1) by (simp only: of_int_le_iff)
  then have "real_of_int 112 * 2 powi 0 \<le> real_of_int V / real_of_int 1" by simp
  with dbl_round_val_ge [OF Vp one f, of 112 0]
  have flo: "112 \<le> dbl_val mf ef" and mf0: "0 \<le> mf" by simp_all
  have "real_of_int V / real_of_int 1 \<le> real_of_int 1 * 2 powi 54"
    using Vle by simp
  with dbl_round_val_le [OF Vp one f, of 1 54]
  have fhi: "dbl_val mf ef \<le> 2 powi 54" by simp
  have fconv: "float_of_int V = Inr (Finite mf ef)"
    by (simp add: float_of_int_def f)
  define P where "P = mf * 8106479329266893"
  define E where "E = ef + (- 53)"
  define k9 where "k9 = real_of_int 8106479329266893 * 2 powi (- 53)"
  have mul: "dbl_mul (Finite mf ef) point9 = dbl_scaled P E"
    by (simp add: dbl_mul_def point9_value P_def E_def)
  have "(2::real) powi (- 53) = 1 / 9007199254740992"
    by (simp add: power_int_minus)
  then have k9lo: "25 / 28 \<le> k9" and k9hi: "k9 \<le> 1"
    by (simp_all add: k9_def)
  have "(2::real) powi E = 2 powi ef * 2 powi (- 53)"
    unfolding E_def by (rule power_int_add) simp
  then have Pval: "real_of_int P * 2 powi E = dbl_val mf ef * k9"
    by (simp add: P_def k9_def dbl_val_def)
  have "(100::real) = 112 * (25 / 28)" by simp
  also have "\<dots> \<le> dbl_val mf ef * k9"
    using flo k9lo by (intro mult_mono) simp_all
  finally have Plo: "100 \<le> real_of_int P * 2 powi E" by (simp add: Pval)
  have "dbl_val mf ef * k9 \<le> 2 powi 54 * 1"
    using fhi k9hi flo k9lo by (intro mult_mono) simp_all
  then have Phi: "real_of_int P * 2 powi E \<le> 2 powi 54" by (simp add: Pval)
  have Pp: "0 < P"
  proof (rule ccontr)
    assume "\<not> 0 < P"
    then have "real_of_int P \<le> 0" by simp
    moreover have "0 \<le> (2::real) powi E" by simp
    ultimately have "real_of_int P * 2 powi E \<le> 0" by (rule mult_nonpos_nonneg)
    with Plo show False by simp
  qed
  have "\<exists>m e. dbl_scaled P E = Finite m e"
    using Pp Phi by (intro dbl_scaled_finite [of P E 54]) simp_all
  then obtain m e where fin: "dbl_scaled P E = Finite m e" by blast
  have "real_of_int 25 * 2 powi 2 \<le> real_of_int P * 2 powi E"
    using Plo by simp
  with dbl_scaled_val_ge [OF Pp fin, of 25 2]
  have lo: "100 \<le> dbl_val m e" and m0: "0 \<le> m" by simp_all
  have "real_of_int P * 2 powi E \<le> real_of_int 1 * 2 powi 54"
    using Phi by simp
  with dbl_scaled_val_le [OF Pp fin, of 1 54]
  have hi: "dbl_val m e \<le> 2 powi 54" by simp
  have "m \<noteq> 0" using lo by (auto simp: dbl_val_def)
  from dbl_scaled_parts [OF Pp fin this]
  have m53: "m < 2 ^ 53" and e0: "- 1074 \<le> e" and norm: "- 1074 < e \<longrightarrow> 2 ^ 52 \<le> m"
    by simp_all
  have e2: "e \<le> 2"
  proof (rule ccontr)
    assume "\<not> e \<le> 2"
    then have e3: "3 \<le> e" by simp
    with norm have "real_of_int (2 ^ 52) \<le> real_of_int m"
      by (simp only: of_int_le_iff)
    moreover have "(2::real) powi 3 \<le> 2 powi e"
      using e3 by (intro power_int_increasing) simp_all
    ultimately have "real_of_int (2 ^ 52) * 2 powi 3 \<le> real_of_int m * 2 powi e"
      by (intro mult_mono) simp_all
    then have "(2::real) powi 55 \<le> dbl_val m e" by (simp add: dbl_val_def)
    with hi have "(2::real) powi 55 \<le> 2 powi 54" by simp
    then show False by simp
  qed
  from fconv mul fin m0 m53 e0 e2 lo show ?thesis by auto
qed

lemma autodetect_floor:
  assumes up: "update_variables g0 senv = (ev, Inr g)"
    and q: "name_query senv = GpuName name" "total_query senv = Returned V"
    and V: "112 \<le> V" "V \<le> 2 ^ 54"
    and run: "start_monitoring g envs = (tr, Polling T)"
  shows "num_le (num_sub (MAX_VRAM_USAGE g) THRESHOLD) T"
proof -
  from autodetect_ceiling [OF V] obtain mf ef m e where
    f: "float_of_int V = Inr (Finite mf ef)"
    and M: "dbl_mul (Finite mf ef) point9 = Finite m e"
    and c: "0 \<le> m" "m < 2 ^ 53" "- 1074 \<le> e" "e \<le> 2" "100 \<le> dbl_val m e"
    by blast
  from up have g: "MAX_VRAM_USAGE g = PyFloat (Finite m e)"
    by (auto simp: update_variables_def q f M Let_def)
  from minus_step_exact [OF c] obtain a j where
    "dbl_add (Finite m e) (Finite (- 7036874417766400) (- 46)) = Finite a j"
    and "dbl_val a j = dbl_val m e - 100"
    by blast
  then have ex: "finite_val (num_sub (MAX_VRAM_USAGE g) THRESHOLD)
      = Some (dbl_val m e - real_of_int THRESHOLD)"
    by (simp add: g num_sub_def THRESHOLD_def minus_hundred finite_val_def)
  have v: "finite_val (MAX_VRAM_USAGE g) = Some (dbl_val m e)"
    by (simp add: g finite_val_def)
  from v ex run show ?thesis by (rule floor_general)
qed

section \<open>The temperature is read and logged, never checked\<close>

text \<open>
  C1 (as stated: a temperature alert on every tick with \<open>tempC > TempCeiling\<close>, none otherwise).
  The loop compares nothing with \<^verbatim>\<open>MAX_TEMP\<close>. At the static configuration, a tick that reads
  95 degrees, above \<^verbatim>\<open>MAX_TEMP = 80\<close>, with 1000 MiB in use prints and sends no warning at all.
\<close>

theorem C1_counterexample:
  "MAX_TEMP < 95 \<and>
   warnings (fst (tick defaults (PyInt 3780)
      \<lparr>usage_query = Returned 1000, temp_query = Returned 95, notify = Delivered\<rparr>)) = []"
  by (simp add: io_defs defaults_def THRESHOLD_def MAX_TEMP_def warnings_def is_warning_def)

text \<open>
  C1 (amended): no temperature alert is emitted on any tick, whether the temperature read is
  above \<^verbatim>\<open>MAX_TEMP\<close> or not. The temperature only goes into the log line: the warnings of a
  tick and the threshold it leaves are the same for any two temperatures read, whatever the
  globals, the threshold before, the usage read and the notifier do.
\<close>

theorem C1_temperature_only_logged:
  "warnings (fst (tick g T \<lparr>usage_query = Returned u, temp_query = Returned t, notify = r\<rparr>))
     = warnings (fst (tick g T \<lparr>usage_query = Returned u, temp_query = Returned t', notify = r\<rparr>))
   \<and> snd (tick g T \<lparr>usage_query = Returned u, temp_query = Returned t, notify = r\<rparr>)
     = snd (tick g T \<lparr>usage_query = Returned u, temp_query = Returned t', notify = r\<rparr>)"
  by (simp add: tick_def get_vram_usage_def get_temp_def send_vram_warning_def log_mess_def log_err_def
      VERBOSITY_LEVEL_def warnings_def is_warning_def Let_def
      split: sum.splits notify_result.splits)

section \<open>The threshold at the start of monitoring\<close>

text \<open>
  C2 (the code at the claim's own input): with \<^verbatim>\<open>MAX_VRAM_USAGE = 3800\<close> and
  \<^verbatim>\<open>THRESHOLD = 100\<close>, before any sample is processed the threshold is 3780, that is
  \<^verbatim>\<open>MAX_VRAM_USAGE - 20\<close>, and not \<^verbatim>\<open>MAX_VRAM_USAGE - THRESHOLD = 3700\<close>.
\<close>

theorem C2_initial_threshold:
  "start_monitoring \<lparr>MAX_VRAM_USAGE = PyInt 3800, VRAM_TOTAL = 2048\<rparr> []
     = ([], Polling (PyInt 3780))
   \<and> (3780::int) \<noteq> 3800 - THRESHOLD"
  by (simp add: start_monitoring_def num_sub_def THRESHOLD_def)

text \<open>
  C3 (the code at the empty prefix, static configuration): the threshold is 3780, which is
  \<^verbatim>\<open>MAX_VRAM_USAGE + k * THRESHOLD\<close> for no integer \<open>k\<close>.
\<close>

theorem C3_threshold_off_grid:
  "snd (start_monitoring defaults []) = Polling (PyInt 3780)
   \<and> MAX_VRAM_USAGE defaults = PyInt 3800
   \<and> \<not> (\<exists>k::int. (3780::int) = 3800 + k * THRESHOLD)"
proof -
  have "\<not> (\<exists>k::int. (3780::int) = 3800 + k * 100)"
    by presburger
  then show ?thesis
    by (simp add: start_monitoring_def defaults_def num_sub_def THRESHOLD_def)
qed

section \<open>A notifier that is not installed\<close>

text \<open>
  C4 (the code where \<^verbatim>\<open>notify-send\<close> is absent): \<^verbatim>\<open>send_vram_warning\<close> catches
  \<^verbatim>\<open>CalledProcessError\<close> only. On a tick that fires while the program is missing, the warning
  is printed, \<^verbatim>\<open>FileNotFoundError\<close> is raised and nobody catches it: the loop ends there.
\<close>

theorem C4_notifier_missing_crashes:
  "tick defaults (PyInt 3780)
      \<lparr>usage_query = Returned 3900, temp_query = Returned 50, notify = NotifyMissing\<rparr>
     = ([Stdout LOG 0 (UsageLine 3900 50),
         Print ''Warning! VRAM usage critical! 3900/2048Mib, (190%)''],
        Stopped (Uncaught FileNotFoundError))"
  by (simp add: io_defs defaults_def THRESHOLD_def percent_3900_2048 message_3900)

text \<open>A notifier that runs and fails is logged, and the loop goes on.\<close>

lemma notifier_failed_continues:
  "tick defaults (PyInt 3780)
      \<lparr>usage_query = Returned 3900, temp_query = Returned 50, notify = NotifyFailed\<rparr>
     = ([Stdout LOG 0 (UsageLine 3900 50),
         Print ''Warning! VRAM usage critical! 3900/2048Mib, (190%)'',
         NotifySend ''VRAM usage critical! 3900/2048Mib, (190%)'',
         Stdout ERR 0 NotifyError, Sleep WAITTIME],
        Polling (PyInt 3880))"
  by (simp add: io_defs defaults_def THRESHOLD_def percent_3900_2048 message_3900)

section \<open>The fire check\<close>

text \<open>
  C5 (as stated: the threshold goes up by exactly one Step and the alert carries the
  percentage \<open>round (100 * U / Capacity)\<close>). With 8192 MiB of capacity, the threshold at 3780
  and 4000 MiB in use, the tick fires and the message says 48 percent, where
  \<open>100 * 4000 / 8192 = 48.83\<close> rounds to 49: \<^verbatim>\<open>(int)(...)\<close> truncates. And after auto-detection
  at 4506 MiB the ceiling and the threshold are floats: the threshold starts at
  \<open>8873938445454541 / 2 ^ 41\<close>, usage 4200 fires with 93 percent, and the rounded sum
  \<^verbatim>\<open>last_warning_vram + THRESHOLD\<close> is \<open>100 - 1 / 2 ^ 41\<close> above the old threshold, not 100.
\<close>

theorem C5_counterexample:
  "tick \<lparr>MAX_VRAM_USAGE = PyInt 3800, VRAM_TOTAL = 8192\<rparr> (PyInt 3780)
      \<lparr>usage_query = Returned 4000, temp_query = Returned 50, notify = Delivered\<rparr>
     = ([Stdout LOG 0 (UsageLine 4000 50),
         Print ''Warning! VRAM usage critical! 4000/8192Mib, (48%)'',
         NotifySend ''VRAM usage critical! 4000/8192Mib, (48%)'', Sleep WAITTIME],
        Polling (PyInt 3880))
   \<and> round (100 * 4000 / 8192 :: real) = (49::int)
   \<and> snd (update_variables defaults \<lparr>name_query = GpuName ''GPU'', total_query = Returned 4506\<rparr>)
     = Inr \<lparr>MAX_VRAM_USAGE = PyFloat (Finite 8917918910565581 (- 41)), VRAM_TOTAL = 4506\<rparr>
   \<and> start_monitoring \<lparr>MAX_VRAM_USAGE = PyFloat (Finite 8917918910565581 (- 41)), VRAM_TOTAL = 4506\<rparr>
        [\<lparr>usage_query = Returned 4200, temp_query = Returned 50, notify = Delivered\<rparr>]
     = ([[Stdout LOG 0 (UsageLine 4200 50),
          Print ''Warning! VRAM usage critical! 4200/4506Mib, (93%)'',
          NotifySend ''VRAM usage critical! 4200/4506Mib, (93%)'', Sleep WAITTIME]],
        Polling (PyFloat (Finite 4546920385504870 (- 40))))
   \<and> start_monitoring \<lparr>MAX_VRAM_USAGE = PyFloat (Finite 8917918910565581 (- 41)), VRAM_TOTAL = 4506\<rparr> []
     = ([], Polling (PyFloat (Finite 8873938445454541 (- 41))))
   \<and> dbl_val 4546920385504870 (- 40) - dbl_val 8873938445454541 (- 41) = 100 - 1 / 2 ^ 41"
proof -
  have m: "warning_message 4000 8192 48 = ''VRAM usage critical! 4000/8192Mib, (48%)''"
    by code_simp
  have r: "round (100 * 4000 / 8192 :: real) = (49::int)"
    by (simp add: round_def)
  have a: "tick \<lparr>MAX_VRAM_USAGE = PyInt 3800, VRAM_TOTAL = 8192\<rparr> (PyInt 3780)
      \<lparr>usage_query = Returned 4000, temp_query = Returned 50, notify = Delivered\<rparr>
     = ([Stdout LOG 0 (UsageLine 4000 50),
         Print ''Warning! VRAM usage critical! 4000/8192Mib, (48%)'',
         NotifySend ''VRAM usage critical! 4000/8192Mib, (48%)'', Sleep WAITTIME],
        Polling (PyInt 3880))"
    by (simp add: io_defs THRESHOLD_def percent_4000_8192 m)
  have b: "snd (update_variables defaults \<lparr>name_query = GpuName ''GPU'', total_query = Returned 4506\<rparr>)
     = Inr \<lparr>MAX_VRAM_USAGE = PyFloat (Finite 8917918910565581 (- 41)), VRAM_TOTAL = 4506\<rparr>"
    by code_simp
  have c: "start_monitoring \<lparr>MAX_VRAM_USAGE = PyFloat (Finite 8917918910565581 (- 41)), VRAM_TOTAL = 4506\<rparr>
        [\<lparr>usage_query = Returned 4200, temp_query = Returned 50, notify = Delivered\<rparr>]
     = ([[Stdout LOG 0 (UsageLine 4200 50),
          Print ''Warning! VRAM usage critical! 4200/4506Mib, (93%)'',
          NotifySend ''VRAM usage critical! 4200/4506Mib, (93%)'', Sleep WAITTIME]],
        Polling (PyFloat (Finite 4546920385504870 (- 40))))"
    by code_simp
  have d: "start_monitoring \<lparr>MAX_VRAM_USAGE = PyFloat (Finite 8917918910565581 (- 41)), VRAM_TOTAL = 4506\<rparr> []
     = ([], Polling (PyFloat (Finite 8873938445454541 (- 41))))"
    by code_simp
  have e: "dbl_val 4546920385504870 (- 40) - dbl_val 8873938445454541 (- 41) = 100 - 1 / 2 ^ 41"
    by (simp add: dbl_val_def power_int_minus field_simps)
  from a r b c d e show ?thesis by (simp only: simp_thms)
qed

text \<open>
  C5 (amended): let \<open>T1\<close> be the threshold after the re-arm check of a tick that reads usage
  \<open>n\<close>: an int under the static configuration, a float after auto-detection. The fire check
  computes \<^verbatim>\<open>T1 + THRESHOLD\<close> in the arithmetic of \<open>T1\<close> (exact on an int, rounded to the
  nearest double on a float) and compares \<open>n\<close> with it. If \<open>n\<close> is greater, \<^verbatim>\<open>VRAM_TOTAL\<close> is
  positive, \<open>n\<close> is at most \<open>2 ^ 1000\<close> times \<^verbatim>\<open>VRAM_TOTAL\<close> (so that the quotient and its
  product with 100 are in the range of a double) and \<^verbatim>\<open>notify-send\<close> is installed, then the
  percentage \<^verbatim>\<open>(int)((vram_usage / VRAM_TOTAL) * 100)\<close> has a value \<open>p\<close>, the double-precision
  product truncated toward zero (not rounded), the tick leaves the threshold at that sum and
  it emits exactly one warning, printed and sent, whose text is built from \<open>n\<close>,
  \<^verbatim>\<open>VRAM_TOTAL\<close> and \<open>p\<close>. Otherwise the tick emits no warning and leaves the threshold at
  \<open>T1\<close>. On an int \<open>T1 = t\<close> the sum is \<open>t + THRESHOLD\<close> and the check is
  \<open>t + THRESHOLD < n\<close>; on a finite float \<open>T1\<close> and \<open>n < 2 ^ 53\<close>, a check that passes implies
  that \<open>n\<close> is above the exact sum. (Lemma \<open>percent_pow2\<close>: for a capacity \<open>2 ^ k\<close> and
  \<open>100 * n < 2 ^ 53\<close> the percentage is \<open>100 * n div 2 ^ k\<close>; lemma \<open>percent_29_100\<close>: it can be
  one less than the exact quotient's floor.)
\<close>

theorem C5_fire_check:
  "(num_less (num_add (rearm g T (int n)) THRESHOLD) (PyInt (int n)) \<longrightarrow>
      0 < VRAM_TOTAL g \<longrightarrow> int n \<le> 2 ^ 1000 * VRAM_TOTAL g \<longrightarrow> r \<noteq> NotifyMissing \<longrightarrow>
      (\<exists>p. percent (int n) (VRAM_TOTAL g) = Inr p
         \<and> snd (tick g T \<lparr>usage_query = Returned n, temp_query = Returned tmp, notify = r\<rparr>)
             = Polling (num_add (rearm g T (int n)) THRESHOLD)
         \<and> warnings (fst (tick g T
               \<lparr>usage_query = Returned n, temp_query = Returned tmp, notify = r\<rparr>))
             = [Print (''Warning! '' @ warning_message (int n) (VRAM_TOTAL g) p),
                NotifySend (warning_message (int n) (VRAM_TOTAL g) p)]))
   \<and> (\<not> num_less (num_add (rearm g T (int n)) THRESHOLD) (PyInt (int n)) \<longrightarrow>
        snd (tick g T \<lparr>usage_query = Returned n, temp_query = Returned tmp, notify = r\<rparr>)
          = Polling (rearm g T (int n))
        \<and> warnings (fst (tick g T
              \<lparr>usage_query = Returned n, temp_query = Returned tmp, notify = r\<rparr>)) = [])
   \<and> (\<forall>t. rearm g T (int n) = PyInt t \<longrightarrow>
        num_add (rearm g T (int n)) THRESHOLD = PyInt (t + THRESHOLD)
        \<and> (num_less (num_add (rearm g T (int n)) THRESHOLD) (PyInt (int n))
             \<longleftrightarrow> t + THRESHOLD < int n))
   \<and> (\<forall>m e. rearm g T (int n) = PyFloat (Finite m e) \<longrightarrow> int n < 2 ^ 53 \<longrightarrow>
        num_less (num_add (rearm g T (int n)) THRESHOLD) (PyInt (int n)) \<longrightarrow>
        dbl_val m e + real_of_int THRESHOLD < real_of_int (int n))"
proof -
  let ?env = "\<lparr>usage_query = Returned n, temp_query = Returned tmp, notify = r\<rparr>"
  let ?T1 = "rearm g T (int n)"
  have fire: "snd (tick g T ?env) = Polling (num_add ?T1 THRESHOLD)
      \<and> warnings (fst (tick g T ?env))
          = [Print (''Warning! '' @ warning_message (int n) (VRAM_TOTAL g) p),
             NotifySend (warning_message (int n) (VRAM_TOTAL g) p)]"
    if "num_less (num_add ?T1 THRESHOLD) (PyInt (int n))"
      "percent (int n) (VRAM_TOTAL g) = Inr p" "r \<noteq> NotifyMissing" for p
    using that
    by (cases r)
      (simp_all add: tick_def get_vram_usage_def get_temp_def send_vram_warning_def
        log_mess_def log_err_def VERBOSITY_LEVEL_def warnings_def is_warning_def Let_def)
  have quiet: "snd (tick g T ?env) = Polling ?T1 \<and> warnings (fst (tick g T ?env)) = []"
    if "\<not> num_less (num_add ?T1 THRESHOLD) (PyInt (int n))"
    using that
    by (simp add: tick_def get_vram_usage_def get_temp_def
        log_mess_def VERBOSITY_LEVEL_def warnings_def is_warning_def Let_def)
  have alert: "\<exists>p. percent (int n) (VRAM_TOTAL g) = Inr p
          \<and> snd (tick g T ?env) = Polling (num_add ?T1 THRESHOLD)
          \<and> warnings (fst (tick g T ?env))
              = [Print (''Warning! '' @ warning_message (int n) (VRAM_TOTAL g) p),
                 NotifySend (warning_message (int n) (VRAM_TOTAL g) p)]"
    if a: "num_less (num_add ?T1 THRESHOLD) (PyInt (int n))" and b: "0 < VRAM_TOTAL g"
      and c: "int n \<le> 2 ^ 1000 * VRAM_TOTAL g" and d: "r \<noteq> NotifyMissing"
  proof -
    have "(0::int) \<le> int n" and "(1000::nat) \<le> 1000" by simp_all
    from percent_defined [OF this(1) b c this(2)]
    obtain p where p: "percent (int n) (VRAM_TOTAL g) = Inr p" ..
    from fire [OF a p d] p show ?thesis by blast
  qed
  have ints: "num_add ?T1 THRESHOLD = PyInt (t + THRESHOLD)
        \<and> (num_less (num_add ?T1 THRESHOLD) (PyInt (int n)) \<longleftrightarrow> t + THRESHOLD < int n)"
    if "?T1 = PyInt t" for t
    using that by (simp add: num_add_def num_less_def)
  have floats: "dbl_val m e + real_of_int THRESHOLD < real_of_int (int n)"
    if "?T1 = PyFloat (Finite m e)" "int n < 2 ^ 53"
      "num_less (num_add ?T1 THRESHOLD) (PyInt (int n))" for m e
  proof -
    from that(2) have "\<bar>int n\<bar> < 2 ^ 53" by simp
    with that(3) [unfolded that(1)] show ?thesis by (rule float_fire_sound)
  qed
  from alert quiet ints floats show ?thesis by blast
qed

text \<open>
  C5, at concrete inputs. Capacity 8192, ceiling 3800: from the threshold 3780, usage 4000
  fires with 48 percent and moves the threshold to 3880; usage 3850 does nothing. After
  auto-detection at 4506 MiB: from the float threshold the run starts with, usage 4200 fires
  with 93 percent and the threshold becomes the rounded sum.
\<close>

theorem C5_witness:
  "percent 4000 8192 = Inr 48
   \<and> snd (tick \<lparr>MAX_VRAM_USAGE = PyInt 3800, VRAM_TOTAL = 8192\<rparr> (PyInt 3780)
      \<lparr>usage_query = Returned 4000, temp_query = Returned 50, notify = Delivered\<rparr>)
     = Polling (PyInt (3780 + THRESHOLD))
   \<and> warnings (fst (tick \<lparr>MAX_VRAM_USAGE = PyInt 3800, VRAM_TOTAL = 8192\<rparr> (PyInt 3780)
      \<lparr>usage_query = Returned 4000, temp_query = Returned 50, notify = Delivered\<rparr>))
     = [Print (''Warning! '' @ warning_message 4000 8192 48),
        NotifySend (warning_message 4000 8192 48)]
   \<and> snd (tick \<lparr>MAX_VRAM_USAGE = PyInt 3800, VRAM_TOTAL = 8192\<rparr> (PyInt 3780)
      \<lparr>usage_query = Returned 3850, temp_query = Returned 50, notify = Delivered\<rparr>)
     = Polling (PyInt 3780)
   \<and> warnings (fst (tick \<lparr>MAX_VRAM_USAGE = PyInt 3800, VRAM_TOTAL = 8192\<rparr> (PyInt 3780)
      \<lparr>usage_query = Returned 3850, temp_query = Returned 50, notify = Delivered\<rparr>)) = []
   \<and> percent 4200 4506 = Inr 93
   \<and> snd (tick \<lparr>MAX_VRAM_USAGE = PyFloat (Finite 8917918910565581 (- 41)), VRAM_TOTAL = 4506\<rparr>
        (PyFloat (Finite 8873938445454541 (- 41)))
        \<lparr>usage_query = Returned 4200, temp_query = Returned 50, notify = Delivered\<rparr>)
     = Polling (PyFloat (Finite 4546920385504870 (- 40)))
   \<and> warnings (fst (tick \<lparr>MAX_VRAM_USAGE = PyFloat (Finite 8917918910565581 (- 41)), VRAM_TOTAL = 4506\<rparr>
        (PyFloat (Finite 8873938445454541 (- 41)))
        \<lparr>usage_query = Returned 4200, temp_query = Returned 50, notify = Delivered\<rparr>))
     = [Print (''Warning! '' @ warning_message 4200 4506 93),
        NotifySend (warning_message 4200 4506 93)]
   \<and> dbl_val 8873938445454541 (- 41) + real_of_int THRESHOLD < 4200"
proof -
  let ?g = "\<lparr>MAX_VRAM_USAGE = PyInt 3800, VRAM_TOTAL = 8192\<rparr>"
  let ?f = "\<lparr>MAX_VRAM_USAGE = PyFloat (Finite 8917918910565581 (- 41)), VRAM_TOTAL = 4506\<rparr>"
  let ?F = "PyFloat (Finite 8873938445454541 (- 41))"
  have r1: "rearm ?g (PyInt 3780) (int 4000) = PyInt 3780"
    by (simp add: rearm_def num_less_def num_le_def num_sub_def THRESHOLD_def)
  have r2: "rearm ?g (PyInt 3780) (int 3850) = PyInt 3780"
    by (simp add: rearm_def num_less_def num_le_def num_sub_def THRESHOLD_def)
  have r3: "rearm ?f ?F (int 4200) = ?F"
    by code_simp
  have s3: "num_add ?F THRESHOLD = PyFloat (Finite 4546920385504870 (- 40))"
    by code_simp
  have h1: "num_less (num_add (rearm ?g (PyInt 3780) (int 4000)) THRESHOLD) (PyInt (int 4000))"
    unfolding r1 by (simp add: num_less_def num_add_def THRESHOLD_def)
  have h2: "\<not> num_less (num_add (rearm ?g (PyInt 3780) (int 3850)) THRESHOLD) (PyInt (int 3850))"
    unfolding r2 by (simp add: num_less_def num_add_def THRESHOLD_def)
  have h3: "num_less (num_add (rearm ?f ?F (int 4200)) THRESHOLD) (PyInt (int 4200))"
    by code_simp
  have v1: "0 < VRAM_TOTAL ?g" and v3: "0 < VRAM_TOTAL ?f" by simp_all
  have "(4000::int) * 1 \<le> 2 ^ 1000 * 8192"
    by (intro mult_mono) simp_all
  then have b1: "int 4000 \<le> 2 ^ 1000 * VRAM_TOTAL ?g" by simp
  have "(4200::int) * 1 \<le> 2 ^ 1000 * 4506"
    by (intro mult_mono) simp_all
  then have b3: "int 4200 \<le> 2 ^ 1000 * VRAM_TOTAL ?f" by simp
  have n: "Delivered \<noteq> NotifyMissing" by simp
  have small: "int 4200 < 2 ^ 53" by simp
  note i1 = C5_fire_check [of ?g "PyInt 3780" 4000 Delivered 50]
  note i2 = C5_fire_check [of ?g "PyInt 3780" 3850 Delivered 50]
  note i3 = C5_fire_check [of ?f ?F 4200 Delivered 50]
  from mp [OF mp [OF mp [OF mp [OF conjunct1 [OF i1] h1] v1] b1] n]
  obtain p where p: "percent (int 4000) (VRAM_TOTAL ?g) = Inr p"
    and a: "snd (tick ?g (PyInt 3780)
        \<lparr>usage_query = Returned 4000, temp_query = Returned 50, notify = Delivered\<rparr>)
        = Polling (num_add (rearm ?g (PyInt 3780) (int 4000)) THRESHOLD)"
    and b: "warnings (fst (tick ?g (PyInt 3780)
        \<lparr>usage_query = Returned 4000, temp_query = Returned 50, notify = Delivered\<rparr>))
        = [Print (''Warning! '' @ warning_message (int 4000) (VRAM_TOTAL ?g) p),
           NotifySend (warning_message (int 4000) (VRAM_TOTAL ?g) p)]"
    by blast
  from p have p48: "p = 48" by (simp add: percent_4000_8192)
  from mp [OF spec [OF conjunct1 [OF conjunct2 [OF conjunct2 [OF i1]]], of 3780] r1]
  have s1: "num_add (rearm ?g (PyInt 3780) (int 4000)) THRESHOLD = PyInt (3780 + THRESHOLD)"
    by (rule conjunct1)
  from mp [OF conjunct1 [OF conjunct2 [OF i2]] h2]
  have c: "snd (tick ?g (PyInt 3780)
        \<lparr>usage_query = Returned 3850, temp_query = Returned 50, notify = Delivered\<rparr>)
        = Polling (rearm ?g (PyInt 3780) (int 3850))
     \<and> warnings (fst (tick ?g (PyInt 3780)
        \<lparr>usage_query = Returned 3850, temp_query = Returned 50, notify = Delivered\<rparr>)) = []" .
  from mp [OF mp [OF mp [OF mp [OF conjunct1 [OF i3] h3] v3] b3] n]
  obtain q where q: "percent (int 4200) (VRAM_TOTAL ?f) = Inr q"
    and d: "snd (tick ?f ?F
        \<lparr>usage_query = Returned 4200, temp_query = Returned 50, notify = Delivered\<rparr>)
        = Polling (num_add (rearm ?f ?F (int 4200)) THRESHOLD)"
    and e: "warnings (fst (tick ?f ?F
        \<lparr>usage_query = Returned 4200, temp_query = Returned 50, notify = Delivered\<rparr>))
        = [Print (''Warning! '' @ warning_message (int 4200) (VRAM_TOTAL ?f) q),
           NotifySend (warning_message (int 4200) (VRAM_TOTAL ?f) q)]"
    by blast
  from q have q93: "q = 93" by (simp add: percent_4200_4506)
  from mp [OF mp [OF mp [OF spec [OF spec [OF conjunct2 [OF conjunct2 [OF conjunct2 [OF i3]]],
      of 8873938445454541] , of "- 41"] r3] small] h3]
  have f: "dbl_val 8873938445454541 (- 41) + real_of_int THRESHOLD < real_of_int (int 4200)" .
  have c1: "percent 4000 8192 = Inr 48" by (rule percent_4000_8192)
  have c2: "snd (tick ?g (PyInt 3780)
        \<lparr>usage_query = Returned 4000, temp_query = Returned 50, notify = Delivered\<rparr>)
     = Polling (PyInt (3780 + THRESHOLD))"
    using a s1 by simp
  have c3: "warnings (fst (tick ?g (PyInt 3780)
        \<lparr>usage_query = Returned 4000, temp_query = Returned 50, notify = Delivered\<rparr>))
     = [Print (''Warning! '' @ warning_message 4000 8192 48),
        NotifySend (warning_message 4000 8192 48)]"
    using b p48 by simp
  have c4: "snd (tick ?g (PyInt 3780)
        \<lparr>usage_query = Returned 3850, temp_query = Returned 50, notify = Delivered\<rparr>)
     = Polling (PyInt 3780)"
    using c r2 by simp
  have c5: "warnings (fst (tick ?g (PyInt 3780)
        \<lparr>usage_query = Returned 3850, temp_query = Returned 50, notify = Delivered\<rparr>)) = []"
    using c by simp
  have c6: "percent 4200 4506 = Inr 93" by (rule percent_4200_4506)
  have c7: "snd (tick ?f ?F
        \<lparr>usage_query = Returned 4200, temp_query = Returned 50, notify = Delivered\<rparr>)
     = Polling (PyFloat (Finite 4546920385504870 (- 40)))"
    using d r3 s3 by simp
  have c8: "warnings (fst (tick ?f ?F
        \<lparr>usage_query = Returned 4200, temp_query = Returned 50, notify = Delivered\<rparr>))
     = [Print (''Warning! '' @ warning_message 4200 4506 93),
        NotifySend (warning_message 4200 4506 93)]"
    using e q93 by simp
  have c9: "dbl_val 8873938445454541 (- 41) + real_of_int THRESHOLD < 4200"
    using f by simp
  from c1 c2 c3 c4 c5 c6 c7 c8 c9 show ?thesis by (simp only: simp_thms)
qed

section \<open>The re-arm check and the floor of the threshold\<close>

text \<open>
  C6 (as stated: below the ceiling the re-arm check never fires again, each decrement is
  exactly one Step, and the threshold never goes below Ceiling - Step). Under the static
  configuration (ceiling 3800) the samples 3900, 3700, 3900, 3700 leave the thresholds 3880,
  3780, 3880, 3780: the re-arm check fires at the second sample, the threshold is then below
  the ceiling, and the re-arm check fires again at the fourth. And after auto-detection at
  \<open>10 ^ 18\<close> MiB the ceiling is the float \<open>9 * 10 ^ 17\<close>, where doubles are 128 apart: the
  threshold starts at the ceiling, a sample of 0 re-arms, and the threshold becomes the
  ceiling minus 128, below the ceiling minus \<^verbatim>\<open>THRESHOLD\<close>.
\<close>

theorem C6_counterexample:
  "snd (start_monitoring defaults
      [\<lparr>usage_query = Returned 3900, temp_query = Returned 50, notify = Delivered\<rparr>])
     = Polling (PyInt 3880)
   \<and> snd (start_monitoring defaults
      [\<lparr>usage_query = Returned 3900, temp_query = Returned 50, notify = Delivered\<rparr>,
       \<lparr>usage_query = Returned 3700, temp_query = Returned 50, notify = Delivered\<rparr>])
     = Polling (PyInt 3780)
   \<and> snd (start_monitoring defaults
      [\<lparr>usage_query = Returned 3900, temp_query = Returned 50, notify = Delivered\<rparr>,
       \<lparr>usage_query = Returned 3700, temp_query = Returned 50, notify = Delivered\<rparr>,
       \<lparr>usage_query = Returned 3900, temp_query = Returned 50, notify = Delivered\<rparr>])
     = Polling (PyInt 3880)
   \<and> snd (start_monitoring defaults
      [\<lparr>usage_query = Returned 3900, temp_query = Returned 50, notify = Delivered\<rparr>,
       \<lparr>usage_query = Returned 3700, temp_query = Returned 50, notify = Delivered\<rparr>,
       \<lparr>usage_query = Returned 3900, temp_query = Returned 50, notify = Delivered\<rparr>,
       \<lparr>usage_query = Returned 3700, temp_query = Returned 50, notify = Delivered\<rparr>])
     = Polling (PyInt 3780)
   \<and> MAX_VRAM_USAGE defaults = PyInt 3800
   \<and> rearm defaults (PyInt 3880) 3700 = PyInt 3780
   \<and> snd (update_variables defaults
        \<lparr>name_query = GpuName ''GPU'', total_query = Returned 1000000000000000000\<rparr>)
     = Inr \<lparr>MAX_VRAM_USAGE = PyFloat (Finite 7031250000000000 7),
            VRAM_TOTAL = 1000000000000000000\<rparr>
   \<and> start_monitoring \<lparr>MAX_VRAM_USAGE = PyFloat (Finite 7031250000000000 7),
            VRAM_TOTAL = 1000000000000000000\<rparr> []
     = ([], Polling (PyFloat (Finite 7031250000000000 7)))
   \<and> start_monitoring \<lparr>MAX_VRAM_USAGE = PyFloat (Finite 7031250000000000 7),
            VRAM_TOTAL = 1000000000000000000\<rparr>
        [\<lparr>usage_query = Returned 0, temp_query = Returned 50, notify = Delivered\<rparr>]
     = ([[Stdout LOG 0 (UsageLine 0 50), Sleep WAITTIME]],
        Polling (PyFloat (Finite 7031249999999999 7)))
   \<and> dbl_val 7031250000000000 7 - dbl_val 7031249999999999 7 = 128
   \<and> dbl_val 7031249999999999 7 < dbl_val 7031250000000000 7 - real_of_int THRESHOLD"
proof -
  have a1: "snd (start_monitoring defaults
      [\<lparr>usage_query = Returned 3900, temp_query = Returned 50, notify = Delivered\<rparr>])
     = Polling (PyInt 3880)"
    by code_simp
  have a2: "snd (start_monitoring defaults
      [\<lparr>usage_query = Returned 3900, temp_query = Returned 50, notify = Delivered\<rparr>,
       \<lparr>usage_query = Returned 3700, temp_query = Returned 50, notify = Delivered\<rparr>])
     = Polling (PyInt 3780)"
    by code_simp
  have a3: "snd (start_monitoring defaults
      [\<lparr>usage_query = Returned 3900, temp_query = Returned 50, notify = Delivered\<rparr>,
       \<lparr>usage_query = Returned 3700, temp_query = Returned 50, notify = Delivered\<rparr>,
       \<lparr>usage_query = Returned 3900, temp_query = Returned 50, notify = Delivered\<rparr>])
     = Polling (PyInt 3880)"
    by code_simp
  have a4: "snd (start_monitoring defaults
      [\<lparr>usage_query = Returned 3900, temp_query = Returned 50, notify = Delivered\<rparr>,
       \<lparr>usage_query = Returned 3700, temp_query = Returned 50, notify = Delivered\<rparr>,
       \<lparr>usage_query = Returned 3900, temp_query = Returned 50, notify = Delivered\<rparr>,
       \<lparr>usage_query = Returned 3700, temp_query = Returned 50, notify = Delivered\<rparr>])
     = Polling (PyInt 3780)"
    by code_simp
  have a5: "MAX_VRAM_USAGE defaults = PyInt 3800"
    by (simp add: defaults_def)
  have a6: "rearm defaults (PyInt 3880) 3700 = PyInt 3780"
    by (simp add: rearm_def defaults_def num_less_def num_le_def num_sub_def THRESHOLD_def)
  have b1: "snd (update_variables defaults
        \<lparr>name_query = GpuName ''GPU'', total_query = Returned 1000000000000000000\<rparr>)
     = Inr \<lparr>MAX_VRAM_USAGE = PyFloat (Finite 7031250000000000 7),
            VRAM_TOTAL = 1000000000000000000\<rparr>"
    by code_simp
  have b2: "start_monitoring \<lparr>MAX_VRAM_USAGE = PyFloat (Finite 7031250000000000 7),
            VRAM_TOTAL = 1000000000000000000\<rparr> []
     = ([], Polling (PyFloat (Finite 7031250000000000 7)))"
    by code_simp
  have b3: "start_monitoring \<lparr>MAX_VRAM_USAGE = PyFloat (Finite 7031250000000000 7),
            VRAM_TOTAL = 1000000000000000000\<rparr>
        [\<lparr>usage_query = Returned 0, temp_query = Returned 50, notify = Delivered\<rparr>]
     = ([[Stdout LOG 0 (UsageLine 0 50), Sleep WAITTIME]],
        Polling (PyFloat (Finite 7031249999999999 7)))"
    by code_simp
  have b4: "dbl_val 7031250000000000 7 - dbl_val 7031249999999999 7 = 128"
    by (simp add: dbl_val_def)
  have b5: "dbl_val 7031249999999999 7 < dbl_val 7031250000000000 7 - real_of_int THRESHOLD"
    by (simp add: dbl_val_def THRESHOLD_def)
  from a1 a2 a3 a4 a5 a6 b1 b2 b3 b4 b5 show ?thesis by (simp only: simp_thms)
qed

text \<open>
  C6 (amended): on a tick with usage \<open>n\<close> and threshold \<open>T\<close> (an int under the static
  configuration, a float after auto-detection), the re-arm check computes \<^verbatim>\<open>T - THRESHOLD\<close>
  in the arithmetic of \<open>T\<close> (exact on an int, rounded to the nearest double on a float): if
  \<open>n\<close> is less than it and \<open>T\<close> is at least the ceiling, the threshold becomes that
  difference; while \<open>T\<close> is below the ceiling the re-arm check leaves the threshold alone (it
  can fire again once a later fire check has raised the threshold to the ceiling or above);
  the fire check then runs on the threshold the re-arm check left. After any sequence of
  samples the threshold is at least \<^verbatim>\<open>MAX_VRAM_USAGE - THRESHOLD\<close>, provided that this
  difference is computed exactly: always for an int ceiling, for a float ceiling whenever
  the exact difference is a double, and so after the auto-detection of any capacity from 112
  to \<open>2 ^ 54\<close> MiB. (The floor uses \<open>THRESHOLD = 100 \<ge> 20\<close>: the threshold starts at the
  ceiling minus 20.)
\<close>

theorem C6_rearm_floor:
  "(num_less (PyInt (int n)) (num_sub T THRESHOLD) \<and> num_le (MAX_VRAM_USAGE g) T \<longrightarrow>
       rearm g T (int n) = num_sub T THRESHOLD)
   \<and> (\<not> num_le (MAX_VRAM_USAGE g) T \<longrightarrow> rearm g T (int n) = T)
   \<and> (\<forall>t. T = PyInt t \<longrightarrow>
        num_sub T THRESHOLD = PyInt (t - THRESHOLD)
        \<and> (num_less (PyInt (int n)) (num_sub T THRESHOLD) \<longleftrightarrow> int n < t - THRESHOLD)
        \<and> (\<forall>c. MAX_VRAM_USAGE g = PyInt c \<longrightarrow> (num_le (MAX_VRAM_USAGE g) T \<longleftrightarrow> c \<le> t)))
   \<and> (\<forall>T'. snd (tick g T \<lparr>usage_query = Returned n, temp_query = Returned tmp, notify = r\<rparr>)
              = Polling T' \<longrightarrow>
           T' = (let T1 = rearm g T (int n)
                 in if num_less (num_add T1 THRESHOLD) (PyInt (int n))
                    then num_add T1 THRESHOLD else T1))
   \<and> (\<forall>v tr Tend. finite_val (MAX_VRAM_USAGE g) = Some v \<longrightarrow>
           finite_val (num_sub (MAX_VRAM_USAGE g) THRESHOLD) = Some (v - real_of_int THRESHOLD) \<longrightarrow>
           start_monitoring g envs = (tr, Polling Tend) \<longrightarrow>
           num_le (num_sub (MAX_VRAM_USAGE g) THRESHOLD) Tend)
   \<and> (\<forall>name V ev g' tr Tend.
           update_variables g \<lparr>name_query = GpuName name, total_query = Returned V\<rparr>
             = (ev, Inr g') \<longrightarrow>
           112 \<le> V \<longrightarrow> V \<le> 2 ^ 54 \<longrightarrow>
           start_monitoring g' envs = (tr, Polling Tend) \<longrightarrow>
           num_le (num_sub (MAX_VRAM_USAGE g') THRESHOLD) Tend)"
proof -
  have a: "num_less (PyInt (int n)) (num_sub T THRESHOLD) \<and> num_le (MAX_VRAM_USAGE g) T \<longrightarrow>
       rearm g T (int n) = num_sub T THRESHOLD"
    and b: "\<not> num_le (MAX_VRAM_USAGE g) T \<longrightarrow> rearm g T (int n) = T"
    by (simp_all add: rearm_def)
  have c: "num_sub T THRESHOLD = PyInt (t - THRESHOLD)
        \<and> (num_less (PyInt (int n)) (num_sub T THRESHOLD) \<longleftrightarrow> int n < t - THRESHOLD)
        \<and> (\<forall>c. MAX_VRAM_USAGE g = PyInt c \<longrightarrow> (num_le (MAX_VRAM_USAGE g) T \<longleftrightarrow> c \<le> t))"
    if "T = PyInt t" for t
    using that by (simp add: num_sub_def num_less_def num_le_def)
  have d: "T' = (let T1 = rearm g T (int n)
                 in if num_less (num_add T1 THRESHOLD) (PyInt (int n))
                    then num_add T1 THRESHOLD else T1)"
    if "snd (tick g T \<lparr>usage_query = Returned n, temp_query = Returned tmp, notify = r\<rparr>)
          = Polling T'" for T'
  proof -
    have "tick g T \<lparr>usage_query = Returned n, temp_query = Returned tmp, notify = r\<rparr>
        = (fst (tick g T \<lparr>usage_query = Returned n, temp_query = Returned tmp, notify = r\<rparr>),
           Polling T')"
      using that [symmetric] by simp
    from tick_threshold [OF this] show ?thesis by simp
  qed
  have e: "num_le (num_sub (MAX_VRAM_USAGE g) THRESHOLD) Tend"
    if "finite_val (MAX_VRAM_USAGE g) = Some v"
      "finite_val (num_sub (MAX_VRAM_USAGE g) THRESHOLD) = Some (v - real_of_int THRESHOLD)"
      "start_monitoring g envs = (tr, Polling Tend)" for v tr Tend
    using that by (rule floor_general)
  have f: "num_le (num_sub (MAX_VRAM_USAGE g') THRESHOLD) Tend"
    if "update_variables g \<lparr>name_query = GpuName name, total_query = Returned V\<rparr>
          = (ev, Inr g')"
      "112 \<le> V" "V \<le> 2 ^ 54" "start_monitoring g' envs = (tr, Polling Tend)"
    for name V ev g' tr Tend
    using that(1) _ _ that(2,3,4) by (rule autodetect_floor) simp_all
  from a b c d e f show ?thesis by blast
qed

text \<open>
  C6, at concrete inputs. Ceiling 3800: from the threshold 3880, usage 3700 re-arms to 3780;
  at 3780, below the ceiling, usage 3000 does not re-arm; and a run ends at 3780, not below
  3700. After auto-detection at 8192 MiB (ceiling 7372.8, a float): usage 7453 fires, usage
  7000 re-arms, and the threshold ends where it started, not below the ceiling minus 100.
\<close>

theorem C6_witness:
  "rearm \<lparr>MAX_VRAM_USAGE = PyInt 3800, VRAM_TOTAL = 8192\<rparr> (PyInt 3880) (int 3700)
     = PyInt (3880 - THRESHOLD)
   \<and> rearm \<lparr>MAX_VRAM_USAGE = PyInt 3800, VRAM_TOTAL = 8192\<rparr> (PyInt 3780) (int 3000) = PyInt 3780
   \<and> snd (tick \<lparr>MAX_VRAM_USAGE = PyInt 3800, VRAM_TOTAL = 8192\<rparr> (PyInt 3880)
        \<lparr>usage_query = Returned 3700, temp_query = Returned 50, notify = Delivered\<rparr>)
       = Polling (PyInt 3780)
   \<and> snd (start_monitoring \<lparr>MAX_VRAM_USAGE = PyInt 3800, VRAM_TOTAL = 8192\<rparr>
        [\<lparr>usage_query = Returned 3000, temp_query = Returned 50, notify = Delivered\<rparr>])
       = Polling (PyInt 3780)
   \<and> num_le (PyInt (3800 - THRESHOLD)) (PyInt 3780)
   \<and> snd (start_monitoring
          \<lparr>MAX_VRAM_USAGE = PyFloat (Finite 8106479329266893 (- 40)), VRAM_TOTAL = 8192\<rparr>
          [\<lparr>usage_query = Returned 7453, temp_query = Returned 50, notify = Delivered\<rparr>,
           \<lparr>usage_query = Returned 7000, temp_query = Returned 50, notify = Delivered\<rparr>])
       = Polling (PyFloat (Finite 8084489096711373 (- 40)))
   \<and> num_sub (PyFloat (Finite 8106479329266893 (- 40))) THRESHOLD
       = PyFloat (Finite 7996528166489293 (- 40))
   \<and> num_le (PyFloat (Finite 7996528166489293 (- 40))) (PyFloat (Finite 8084489096711373 (- 40)))
   \<and> snd (update_variables defaults
          \<lparr>name_query = GpuName ''GPU'', total_query = Returned 8192\<rparr>)
       = Inr \<lparr>MAX_VRAM_USAGE = PyFloat (Finite 8106479329266893 (- 40)), VRAM_TOTAL = 8192\<rparr>
   \<and> num_le (num_sub (PyFloat (Finite 8106479329266893 (- 40))) THRESHOLD)
        (PyFloat (Finite 8084489096711373 (- 40)))"
proof -
  let ?g = "\<lparr>MAX_VRAM_USAGE = PyInt 3800, VRAM_TOTAL = 8192\<rparr>"
  let ?f = "\<lparr>MAX_VRAM_USAGE = PyFloat (Finite 8106479329266893 (- 40)), VRAM_TOTAL = 8192\<rparr>"
  let ?e1 = "[\<lparr>usage_query = Returned 3000, temp_query = Returned 50, notify = Delivered\<rparr>]"
  let ?e2 = "[\<lparr>usage_query = Returned 7453, temp_query = Returned 50, notify = Delivered\<rparr>,
           \<lparr>usage_query = Returned 7000, temp_query = Returned 50, notify = Delivered\<rparr>]"
  note i1 = C6_rearm_floor [where n = 3700 and T = "PyInt 3880" and g = ?g and tmp = 50
      and r = Delivered and envs = ?e1]
  note i2 = C6_rearm_floor [where n = 3000 and T = "PyInt 3780" and g = ?g and tmp = 50
      and r = Delivered and envs = ?e1]
  note i3 = C6_rearm_floor [where n = 3000 and T = "PyInt 3780" and g = ?f and tmp = 50
      and r = Delivered and envs = ?e2]
  note i4 = C6_rearm_floor [where n = 3000 and T = "PyInt 3780" and g = defaults and tmp = 50
      and r = Delivered and envs = ?e2]
  have h1: "num_less (PyInt (int 3700)) (num_sub (PyInt 3880) THRESHOLD)
      \<and> num_le (MAX_VRAM_USAGE ?g) (PyInt 3880)"
    by (simp add: num_less_def num_le_def num_sub_def THRESHOLD_def)
  have h2: "\<not> num_le (MAX_VRAM_USAGE ?g) (PyInt 3780)"
    by (simp add: num_le_def)
  have tk: "snd (tick ?g (PyInt 3880)
        \<lparr>usage_query = Returned 3700, temp_query = Returned 50, notify = Delivered\<rparr>)
       = Polling (PyInt 3780)"
    by (simp add: io_defs THRESHOLD_def)
  have s1: "snd (start_monitoring ?g ?e1) = Polling (PyInt 3780)"
    by (simp add: start_monitoring_def io_defs THRESHOLD_def)
  have s2: "snd (start_monitoring ?f ?e2) = Polling (PyFloat (Finite 8084489096711373 (- 40)))"
    by code_simp
  have r1: "start_monitoring ?g ?e1 = (fst (start_monitoring ?g ?e1), Polling (PyInt 3780))"
    using s1 [symmetric] by simp
  have r2: "start_monitoring ?f ?e2
      = (fst (start_monitoring ?f ?e2), Polling (PyFloat (Finite 8084489096711373 (- 40))))"
    using s2 [symmetric] by simp
  have v1: "finite_val (MAX_VRAM_USAGE ?g) = Some (real_of_int 3800)"
    by (simp add: finite_val_def)
  have x1: "finite_val (num_sub (MAX_VRAM_USAGE ?g) THRESHOLD)
      = Some (real_of_int 3800 - real_of_int THRESHOLD)"
    by (simp add: finite_val_def num_sub_def)
  have sub: "num_sub (PyFloat (Finite 8106479329266893 (- 40))) THRESHOLD
      = PyFloat (Finite 7996528166489293 (- 40))"
    by code_simp
  have v2: "finite_val (MAX_VRAM_USAGE ?f) = Some (dbl_val 8106479329266893 (- 40))"
    by (simp add: finite_val_def)
  have eq: "dbl_val 7996528166489293 (- 40)
      = dbl_val 8106479329266893 (- 40) - real_of_int THRESHOLD"
    by (simp add: dbl_val_def THRESHOLD_def power_int_minus field_simps)
  have x2: "finite_val (num_sub (MAX_VRAM_USAGE ?f) THRESHOLD)
      = Some (dbl_val 8106479329266893 (- 40) - real_of_int THRESHOLD)"
    by (simp only: globals.simps sub) (simp add: finite_val_def eq)
  from mp [OF conjunct1 [OF i1] h1]
  have a0: "rearm ?g (PyInt 3880) (int 3700) = num_sub (PyInt 3880) THRESHOLD" .
  from mp [OF spec [OF conjunct1 [OF conjunct2 [OF conjunct2 [OF i1]]], of 3880] refl]
  have a1: "num_sub (PyInt 3880) THRESHOLD = PyInt (3880 - THRESHOLD)"
    by (rule conjunct1)
  from mp [OF conjunct1 [OF conjunct2 [OF i2]] h2]
  have b: "rearm ?g (PyInt 3780) (int 3000) = PyInt 3780" .
  from mp [OF spec [OF conjunct1 [OF conjunct2 [OF conjunct2 [OF conjunct2 [OF i1]]]],
      of "PyInt 3780"] tk]
  have c: "PyInt 3780 = (let T1 = rearm ?g (PyInt 3880) (int 3700)
                 in if num_less (num_add T1 THRESHOLD) (PyInt (int 3700))
                    then num_add T1 THRESHOLD else T1)" .
  note fl = conjunct1 [OF conjunct2 [OF conjunct2 [OF conjunct2 [OF conjunct2 [OF i1]]]]]
  from mp [OF mp [OF mp [OF spec [OF spec [OF spec [OF fl, of "real_of_int 3800"],
      of "fst (start_monitoring ?g ?e1)"], of "PyInt 3780"] v1] x1] r1]
  have d: "num_le (num_sub (MAX_VRAM_USAGE ?g) THRESHOLD) (PyInt 3780)" .
  note ff = conjunct1 [OF conjunct2 [OF conjunct2 [OF conjunct2 [OF conjunct2 [OF i3]]]]]
  from mp [OF mp [OF mp [OF spec [OF spec [OF spec [OF ff, of "dbl_val 8106479329266893 (- 40)"],
      of "fst (start_monitoring ?f ?e2)"], of "PyFloat (Finite 8084489096711373 (- 40))"] v2] x2] r2]
  have e: "num_le (num_sub (MAX_VRAM_USAGE ?f) THRESHOLD)
      (PyFloat (Finite 8084489096711373 (- 40)))" .
  have c1: "rearm ?g (PyInt 3880) (int 3700) = PyInt (3880 - THRESHOLD)"
    using a0 a1 by simp
  have c5: "num_le (PyInt (3800 - THRESHOLD)) (PyInt 3780)"
    using d by (simp add: num_sub_def)
  have c8: "num_le (PyFloat (Finite 7996528166489293 (- 40)))
      (PyFloat (Finite 8084489096711373 (- 40)))"
    using e sub by simp
  note fa = conjunct2 [OF conjunct2 [OF conjunct2 [OF conjunct2 [OF conjunct2 [OF i4]]]]]
  have lo: "(112::int) \<le> 8192" and hi: "(8192::int) \<le> 2 ^ 54" by simp_all
  from mp [OF mp [OF mp [OF mp [OF spec [OF spec [OF spec [OF spec [OF spec [OF spec [OF fa,
      of "''GPU''"], of 8192], of "[Stdout LOG 0 Autodetecting, Stdout LOG 1 (DetectedGPU ''GPU''),
         Stdout LOG 1 (DetectedVRAM 8192),
         Stdout LOG 1 (MaxVramUsageSet (PyFloat (Finite 8106479329266893 (- 40)))),
         Stdout LOG 1 (UpdateEvery 2), Stdout LOG 1 (MaxTempSet 80)]"], of ?f],
      of "fst (start_monitoring ?f ?e2)"], of "PyFloat (Finite 8084489096711373 (- 40))"]
      autodetect_8192] lo] hi] r2]
  have e': "num_le (num_sub (MAX_VRAM_USAGE ?f) THRESHOLD)
      (PyFloat (Finite 8084489096711373 (- 40)))" .
  have c9: "snd (update_variables defaults
          \<lparr>name_query = GpuName ''GPU'', total_query = Returned 8192\<rparr>) = Inr ?f"
    by (simp add: autodetect_8192)
  have c10: "num_le (num_sub (PyFloat (Finite 8106479329266893 (- 40))) THRESHOLD)
        (PyFloat (Finite 8084489096711373 (- 40)))"
    using e' by simp
  from c1 b tk s1 c5 s2 sub c8 c9 c10 show ?thesis by (simp only: simp_thms)
qed

section \<open>Failing queries of the metrics tool\<close>

text \<open>
  C7 (every query error of the metrics tool ends the process, at startup too). With
  auto-detection on and \<^verbatim>\<open>nvidia-smi\<close> returning a non-zero status to a startup query,
  \<^verbatim>\<open>update_variables\<close> logs the error and returns: monitoring starts with the static
  configuration and the next tick is processed. The other handlers of the script end the
  process: a missing tool at startup, a non-zero status at a tick.
\<close>

theorem C7_startup_error_not_fatal:
  "main True \<lparr>name_query = NameNonZeroExit, total_query = NonZeroExit\<rparr>
      [\<lparr>usage_query = Returned 1000, temp_query = Returned 50, notify = Delivered\<rparr>]
    = ([Stdout LOG 0 Autodetecting, Stdout ERR 1 GatherFailedError],
       [[Stdout LOG 0 (UsageLine 1000 50), Sleep WAITTIME]],
       Polling (PyInt 3780))
   \<and> main True \<lparr>name_query = GpuName ''GPU'', total_query = NonZeroExit\<rparr>
      [\<lparr>usage_query = Returned 1000, temp_query = Returned 50, notify = Delivered\<rparr>]
    = ([Stdout LOG 0 Autodetecting, Stdout LOG 1 (DetectedGPU ''GPU''),
        Stdout ERR 1 GatherFailedError],
       [[Stdout LOG 0 (UsageLine 1000 50), Sleep WAITTIME]],
       Polling (PyInt 3780))
   \<and> main True \<lparr>name_query = NameNotInstalled, total_query = NotInstalled\<rparr>
      [\<lparr>usage_query = Returned 1000, temp_query = Returned 50, notify = Delivered\<rparr>]
    = ([Stdout LOG 0 Autodetecting, Stdout ERR 1 GatherFailedMissing], [], Stopped SystemExit)
   \<and> tick defaults (PyInt 3780)
      \<lparr>usage_query = NonZeroExit, temp_query = Returned 50, notify = Delivered\<rparr>
    = ([Stdout ERR 0 VramUsageFailedError], Stopped SystemExit)"
  by (simp add: main_def update_variables_def start_monitoring_def io_defs defaults_def
      THRESHOLD_def)

text \<open>
  The handlers of the metrics queries, for every state: at a tick, and at startup with the
  tool missing, the error is logged and the process ends; at startup with a non-zero status
  the error is logged and \<^verbatim>\<open>start_monitoring\<close> runs on the globals as they were.
\<close>

lemma metrics_query_errors:
  "tick g T \<lparr>usage_query = NonZeroExit, temp_query = tq, notify = r\<rparr>
     = ([Stdout ERR 0 VramUsageFailedError], Stopped SystemExit)
   \<and> tick g T \<lparr>usage_query = NotInstalled, temp_query = tq, notify = r\<rparr>
     = ([Stdout ERR 0 VramUsageFailedMissing], Stopped SystemExit)
   \<and> tick g T \<lparr>usage_query = Returned n, temp_query = NonZeroExit, notify = r\<rparr>
     = ([Stdout ERR 0 TempFailedError], Stopped SystemExit)
   \<and> tick g T \<lparr>usage_query = Returned n, temp_query = NotInstalled, notify = r\<rparr>
     = ([Stdout ERR 0 TempFailedMissing], Stopped SystemExit)
   \<and> main True \<lparr>name_query = NameNotInstalled, total_query = q\<rparr> envs
     = ([Stdout LOG 0 Autodetecting, Stdout ERR 1 GatherFailedMissing], [], Stopped SystemExit)
   \<and> main True \<lparr>name_query = GpuName name, total_query = NotInstalled\<rparr> envs
     = ([Stdout LOG 0 Autodetecting, Stdout LOG 1 (DetectedGPU name),
         Stdout ERR 1 GatherFailedMissing], [], Stopped SystemExit)
   \<and> main True \<lparr>name_query = NameNonZeroExit, total_query = q\<rparr> envs
     = ([Stdout LOG 0 Autodetecting, Stdout ERR 1 GatherFailedError],
        start_monitoring defaults envs)
   \<and> main True \<lparr>name_query = GpuName name, total_query = NonZeroExit\<rparr> envs
     = ([Stdout LOG 0 Autodetecting, Stdout LOG 1 (DetectedGPU name),
         Stdout ERR 1 GatherFailedError],
        start_monitoring defaults envs)"
  by (simp add: main_def update_variables_def tick_def get_vram_usage_def get_temp_def
      log_mess_def log_err_def VERBOSITY_LEVEL_def)

section \<open>Exit status\<close>

text \<open>
  C8 (as stated: an internal fatal condition exits non-zero). With \<^verbatim>\<open>nvidia-smi\<close> missing
  at a tick, the error is logged and the process ends by \<^verbatim>\<open>sys.exit()\<close>, whose status is 0.
\<close>

theorem C8_counterexample:
  "tick defaults (PyInt 3780)
      \<lparr>usage_query = NotInstalled, temp_query = Returned 50, notify = Delivered\<rparr>
     = ([Stdout ERR 0 VramUsageFailedMissing], Stopped SystemExit)
   \<and> exit_status SystemExit = 0"
  by (simp add: tick_def get_vram_usage_def log_err_def exit_status_def)

text \<open>
  C8 (amended): when the metrics tool is missing or returns a non-zero status at a tick, or
  is missing at startup, the process logs the error and ends by \<^verbatim>\<open>sys.exit()\<close>, with exit
  status 0.
\<close>

theorem C8_exit_status:
  "tick g T \<lparr>usage_query = NonZeroExit, temp_query = tq, notify = r\<rparr>
     = (log_err VramUsageFailedError 0, Stopped SystemExit)
   \<and> tick g T \<lparr>usage_query = NotInstalled, temp_query = tq, notify = r\<rparr>
     = (log_err VramUsageFailedMissing 0, Stopped SystemExit)
   \<and> tick g T \<lparr>usage_query = Returned n, temp_query = NonZeroExit, notify = r\<rparr>
     = (log_err TempFailedError 0, Stopped SystemExit)
   \<and> tick g T \<lparr>usage_query = Returned n, temp_query = NotInstalled, notify = r\<rparr>
     = (log_err TempFailedMissing 0, Stopped SystemExit)
   \<and> update_variables g0 \<lparr>name_query = NameNotInstalled, total_query = q\<rparr>
     = (log_mess Autodetecting 0 @ log_err GatherFailedMissing 1, Inl SystemExit)
   \<and> update_variables g0 \<lparr>name_query = GpuName name, total_query = NotInstalled\<rparr>
     = (log_mess Autodetecting 0 @ log_mess (DetectedGPU name) 1 @ log_err GatherFailedMissing 1,
        Inl SystemExit)
   \<and> log_err VramUsageFailedError 0 = [Stdout ERR 0 VramUsageFailedError]
   \<and> log_err VramUsageFailedMissing 0 = [Stdout ERR 0 VramUsageFailedMissing]
   \<and> log_err TempFailedError 0 = [Stdout ERR 0 TempFailedError]
   \<and> log_err TempFailedMissing 0 = [Stdout ERR 0 TempFailedMissing]
   \<and> log_err GatherFailedMissing 1 = [Stdout ERR 1 GatherFailedMissing]
   \<and> exit_status SystemExit = 0"
  by (simp add: update_variables_def tick_def get_vram_usage_def get_temp_def exit_status_def
      log_err_def)

section \<open>The end-to-end scenario\<close>

text \<open>
  C9: with capacity 8192, ceiling 3800 and \<open>THRESHOLD = 100\<close>, the samples 3000, 3850, 3950,
  3700, 3650 (any temperatures; a notifier that delivers) give exactly one warning, at the
  sample 3950; its message contains \<open>3950/8192\<close> and \<open>48%\<close>.
\<close>

theorem C9_scenario:
  "map sent (fst (start_monitoring \<lparr>MAX_VRAM_USAGE = PyInt 3800, VRAM_TOTAL = 8192\<rparr>
      [\<lparr>usage_query = Returned 3000, temp_query = Returned t1, notify = r1\<rparr>,
       \<lparr>usage_query = Returned 3850, temp_query = Returned t2, notify = r2\<rparr>,
       \<lparr>usage_query = Returned 3950, temp_query = Returned t3, notify = Delivered\<rparr>,
       \<lparr>usage_query = Returned 3700, temp_query = Returned t4, notify = r4\<rparr>,
       \<lparr>usage_query = Returned 3650, temp_query = Returned t5, notify = r5\<rparr>]))
     = [[], [], [''VRAM usage critical! 3950/8192Mib, (48%)''], [], []]
   \<and> map warnings (fst (start_monitoring \<lparr>MAX_VRAM_USAGE = PyInt 3800, VRAM_TOTAL = 8192\<rparr>
      [\<lparr>usage_query = Returned 3000, temp_query = Returned t1, notify = r1\<rparr>,
       \<lparr>usage_query = Returned 3850, temp_query = Returned t2, notify = r2\<rparr>,
       \<lparr>usage_query = Returned 3950, temp_query = Returned t3, notify = Delivered\<rparr>,
       \<lparr>usage_query = Returned 3700, temp_query = Returned t4, notify = r4\<rparr>,
       \<lparr>usage_query = Returned 3650, temp_query = Returned t5, notify = r5\<rparr>]))
     = [[], [],
        [Print ''Warning! VRAM usage critical! 3950/8192Mib, (48%)'',
         NotifySend ''VRAM usage critical! 3950/8192Mib, (48%)''], [], []]
   \<and> sublist ''3950/8192'' ''VRAM usage critical! 3950/8192Mib, (48%)''
   \<and> sublist ''48%'' ''VRAM usage critical! 3950/8192Mib, (48%)''"
proof -
  have s1: "sublist ''3950/8192'' (''VRAM usage critical! '' @ ''3950/8192'' @ ''Mib, (48%)'')"
    by (rule sublist_appendI)
  have s2: "sublist ''48%'' (''VRAM usage critical! 3950/8192Mib, ('' @ ''48%'' @ '')'')"
    by (rule sublist_appendI)
  from s1 s2 show ?thesis
    by (simp add: start_monitoring_def io_defs THRESHOLD_def percent_3950_8192 message_3950
        warnings_def is_warning_def)
qed

section \<open>The static configuration\<close>

text \<open>
  C10: under \<^verbatim>\<open>--noauto\<close> (capacity 2048, ceiling 3800, \<open>THRESHOLD = 100\<close>), whatever the
  world answers, every warning of every tick reports a percentage above 100, and the
  threshold is never below 3780.
\<close>

theorem C10_static_alerts_above_100:
  assumes "main False senv envs = (ev0, tr, out)"
  shows "(\<forall>evs \<in> set tr. \<forall>e \<in> set (warnings evs).
           \<exists>u p. (e = Print (''Warning! '' @ warning_message u 2048 p)
                  \<or> e = NotifySend (warning_message u 2048 p)) \<and> 100 < p)
       \<and> (\<forall>T. out = Polling T \<longrightarrow> (\<exists>t. T = PyInt t \<and> 3780 \<le> t))"
proof -
  have mx: "MAX_VRAM_USAGE defaults = PyInt 3800"
    by (simp add: defaults_def)
  from assms have sm: "start_monitoring defaults envs = (tr, out)"
    by (simp add: main_def)
  then have lp: "monitoring_loop defaults (PyInt (3800 - 20 + int 0 * THRESHOLD)) envs = (tr, out)"
    by (simp add: start_monitoring_def mx num_sub_def)
  have a: "\<exists>u p. (e = Print (''Warning! '' @ warning_message u 2048 p)
                  \<or> e = NotifySend (warning_message u 2048 p)) \<and> 100 < p"
    if "evs \<in> set tr" "e \<in> set (warnings evs)" for evs e
  proof -
    from loop_ticks [OF mx lp that(1)] obtain k' env out'
      where "tick defaults (PyInt (3800 - 20 + int k' * THRESHOLD)) env = (evs, out')"
      by blast
    from static_tick [OF this that(2)] show ?thesis .
  qed
  have b: "\<exists>t. T = PyInt t \<and> 3780 \<le> t" if "out = Polling T" for T
  proof -
    from start_grid [OF mx] sm that obtain k where "T = PyInt (3800 - 20 + int k * THRESHOLD)"
      by blast
    then show ?thesis by (simp add: THRESHOLD_def)
  qed
  from a b show ?thesis by blast
qed

text \<open>
  C10, at a concrete run: one tick reading 3900 MiB warns with 190 percent and leaves the
  threshold at 3880.
\<close>

theorem C10_witness:
  "main False \<lparr>name_query = NameNotInstalled, total_query = NotInstalled\<rparr>
      [\<lparr>usage_query = Returned 3900, temp_query = Returned 50, notify = Delivered\<rparr>]
    = ([Stdout WARN 0 NoAutoWarning],
       [[Stdout LOG 0 (UsageLine 3900 50),
         Print ''Warning! VRAM usage critical! 3900/2048Mib, (190%)'',
         NotifySend ''VRAM usage critical! 3900/2048Mib, (190%)'', Sleep WAITTIME]],
       Polling (PyInt 3880))
   \<and> (\<exists>u p. (NotifySend ''VRAM usage critical! 3900/2048Mib, (190%)''
                 = Print (''Warning! '' @ warning_message u 2048 p)
               \<or> NotifySend ''VRAM usage critical! 3900/2048Mib, (190%)''
                 = NotifySend (warning_message u 2048 p)) \<and> 100 < p)
   \<and> (\<exists>t. PyInt 3880 = PyInt t \<and> 3780 \<le> t)"
proof -
  let ?evs = "[Stdout LOG 0 (UsageLine 3900 50),
         Print ''Warning! VRAM usage critical! 3900/2048Mib, (190%)'',
         NotifySend ''VRAM usage critical! 3900/2048Mib, (190%)'', Sleep WAITTIME]"
  have run: "main False \<lparr>name_query = NameNotInstalled, total_query = NotInstalled\<rparr>
      [\<lparr>usage_query = Returned 3900, temp_query = Returned 50, notify = Delivered\<rparr>]
    = ([Stdout WARN 0 NoAutoWarning], [?evs], Polling (PyInt 3880))"
    by (rule static_run)
  have w: "NotifySend ''VRAM usage critical! 3900/2048Mib, (190%)'' \<in> set (warnings ?evs)"
    by (simp add: warnings_def is_warning_def)
  have i: "?evs \<in> set [?evs]" by simp
  note inst = C10_static_alerts_above_100 [OF run]
  from bspec [OF bspec [OF conjunct1 [OF inst] i] w]
  have a: "\<exists>u p. (NotifySend ''VRAM usage critical! 3900/2048Mib, (190%)''
                 = Print (''Warning! '' @ warning_message u 2048 p)
               \<or> NotifySend ''VRAM usage critical! 3900/2048Mib, (190%)''
                 = NotifySend (warning_message u 2048 p)) \<and> 100 < p" .
  from mp [OF spec [OF conjunct2 [OF inst]] refl]
  have b: "\<exists>t. PyInt 3880 = PyInt t \<and> 3780 \<le> t" .
  from run a b show ?thesis by (intro conjI)
qed

end
